theory Spec2Isabelle
  imports Main
begin

section \<open>JavaScript strings, character classes and the regular expressions of the source\<close>

text \<open>
  A JavaScript string is modelled as a HOL \<^typ>\<open>string\<close>: one \<^typ>\<open>char\<close> stands for
  one code unit below 256, so \<open>length\<close> is the \<open>.length\<close> of the source. The white space
  of \<open>\s\<close> and of \<open>trim\<close> within that range is TAB, LF, VT, FF, CR, SPACE and NBSP.
\<close>

definition is_space :: "char \<Rightarrow> bool" where
  "is_space c = ((of_char c :: nat) \<in> {9, 10, 11, 12, 13, 32, 160})"

definition trim :: "string \<Rightarrow> string" where
  "trim s = rev (dropWhile is_space (rev (dropWhile is_space s)))"

text \<open>A character class \<open>[...]\<close> is a list of alternatives.\<close>

datatype cls = One char | Range char char | Space

fun in_cls :: "cls \<Rightarrow> char \<Rightarrow> bool" where
  "in_cls (One a) c = (c = a)"
| "in_cls (Range lo hi) c = ((of_char lo :: nat) \<le> of_char c \<and> (of_char c :: nat) \<le> of_char hi)"
| "in_cls Space c = is_space c"

definition in_class :: "cls list \<Rightarrow> char \<Rightarrow> bool" where
  "in_class cs c = list_ex (\<lambda>k. in_cls k c) cs"

text \<open>\<open>/[...]/.test(s)\<close>, not anchored: some character of \<open>s\<close> is in the class.\<close>

definition test_class :: "cls list \<Rightarrow> string \<Rightarrow> bool" where
  "test_class cs s = list_ex (in_class cs) s"

definition upper_class :: "cls list" where
  "upper_class = [Range CHR ''A'' CHR ''Z'']"

definition lower_class :: "cls list" where
  "lower_class = [Range CHR ''a'' CHR ''z'']"

definition digit_class :: "cls list" where
  "digit_class = [Range CHR ''0'' CHR ''9'']"

text \<open>The class \<open>[!@#$%^&*(),.?":{}|<>]\<close>; the double quote is \<open>CHR 0x22\<close>.\<close>

definition special_class :: "cls list" where
  "special_class = map One (''!@#$%^&*(),.?'' @ [CHR 0x22] @ '':{}|<>'')"

text \<open>
  An anchored pattern \<open>^ item ... item $\<close> whose items are quantified classes
  \<open>[...]{lo,hi}\<close> (\<open>?\<close> is \<open>{0,1}\<close>). \<open>consume\<close> lists what can remain of the input after
  one item, for every number of repetitions it allows; \<open>match_seq\<close> tries them all, which
  is what backtracking decides.
\<close>

fun consume :: "cls list \<Rightarrow> nat \<Rightarrow> nat \<Rightarrow> string \<Rightarrow> string list" where
  "consume cs lo hi [] = (if lo = 0 then [[]] else [])"
| "consume cs lo hi (c # r) =
     (if lo = 0 then [c # r] else []) @
     (if 0 < hi \<and> in_class cs c then consume cs (lo - 1) (hi - 1) r else [])"

fun match_seq :: "(cls list \<times> nat \<times> nat) list \<Rightarrow> string \<Rightarrow> bool" where
  "match_seq [] s = (s = [])"
| "match_seq ((cs, lo, hi) # its) s = list_ex (match_seq its) (consume cs lo hi s)"

text \<open>\<open>/^[+]?[(]?[0-9]{1,4}[)]?[-\s.]?[0-9]{1,4}[-\s.]?[0-9]{1,9}$/\<close>\<close>

definition phone_regex :: "(cls list \<times> nat \<times> nat) list" where
  "phone_regex =
     [([One CHR ''+''], 0, 1),
      ([One CHR ''(''], 0, 1),
      (digit_class, 1, 4),
      ([One CHR '')''], 0, 1),
      ([One CHR ''-'', Space, One CHR ''.''], 0, 1),
      (digit_class, 1, 4),
      ([One CHR ''-'', Space, One CHR ''.''], 0, 1),
      (digit_class, 1, 9)]"


section \<open>The registration form: password policy feedback\<close>

text \<open>
  \<open>validatePassword\<close> computes the five criteria the component keeps in its
  \<open>passwordValidation\<close> state; the effect hook recomputes them on every change of the
  password field, so in a settled form that state is \<open>validatePassword\<close> of the field.
\<close>

record password_validation =
  minLength :: bool
  hasUppercase :: bool
  hasLowercase :: bool
  hasNumber :: bool
  hasSpecial :: bool

definition validatePassword :: "string \<Rightarrow> password_validation" where
  "validatePassword password =
     \<lparr>minLength = (8 \<le> length password),
      hasUppercase = test_class upper_class password,
      hasLowercase = test_class lower_class password,
      hasNumber = test_class digit_class password,
      hasSpecial = test_class special_class password\<rparr>"

text \<open>
  \<open>editingId\<close> is \<open>null\<close> (\<open>None\<close>) or the id of the record being edited. The source tests
  it for truthiness: \<open>null\<close> and the number 0 are falsy. The password field is a string,
  falsy when empty.
\<close>

definition truthy_id :: "nat option \<Rightarrow> bool" where
  "truthy_id editingId = (case editingId of None \<Rightarrow> False | Some n \<Rightarrow> n \<noteq> 0)"

definition isPasswordValid :: "nat option \<Rightarrow> string \<Rightarrow> password_validation \<Rightarrow> bool" where
  "isPasswordValid editingId password pv =
     (if truthy_id editingId \<and> password = [] then True
      else list_all (\<lambda>criteria. criteria = True)
             [minLength pv, hasUppercase pv, hasLowercase pv, hasNumber pv, hasSpecial pv])"


section \<open>JSON values, \<open>JSON.stringify\<close>, \<open>JSON.parse\<close> and \<open>String\<close>\<close>

text \<open>
  The values of JSON as JavaScript holds them. A number is held as the text
  JavaScript prints it with (\<open>JNum ''1.5''\<close>); an object as the list of its
  properties in the order JavaScript enumerates them.
\<close>

datatype json =
  JNull | JBool bool | JNum string | JStr string | JArr "json list" | JObj "(string \<times> json) list"

subsection \<open>Numbers\<close>

definition is_digit :: "char \<Rightarrow> bool" where
  "is_digit c = in_cls (Range CHR ''0'' CHR ''9'') c"

definition is_number_char :: "char \<Rightarrow> bool" where
  "is_number_char c = (is_digit c \<or> c \<in> {CHR ''-'', CHR ''+'', CHR ''.'', CHR ''e'', CHR ''E''})"

definition int_of_digits :: "string \<Rightarrow> int" where
  "int_of_digits ds = foldl (\<lambda>n c. 10 * n + (of_char c - 48)) 0 ds"

fun digits_of_nat :: "nat \<Rightarrow> string" where
  "digits_of_nat n =
     (if n < 10 then [char_of (48 + n)]
      else digits_of_nat (n div 10) @ [char_of (48 + n mod 10)])"

text \<open>
  The grammar of a JSON number: \<open>-? (0 | [1-9][0-9]*) (. [0-9]+)? ([eE] [+-]? [0-9]+)?\<close>.
  \<open>number_parts\<close> splits a text that is a number into its sign, its digits before and
  after the point and its exponent.
\<close>

definition number_parts :: "string \<Rightarrow> (bool \<times> string \<times> string \<times> int) option" where
  "number_parts s =
     (let negative = (take 1 s = ''-'');
          s1 = (if negative then drop 1 s else s);
          ip = takeWhile is_digit s1;
          s2 = dropWhile is_digit s1;
          has_frac = (take 1 s2 = ''.'');
          fp = (if has_frac then takeWhile is_digit (drop 1 s2) else []);
          s3 = (if has_frac then dropWhile is_digit (drop 1 s2) else s2);
          has_exp = (take 1 s3 = ''e'' \<or> take 1 s3 = ''E'');
          s4 = (if has_exp then drop 1 s3 else s3);
          exp_negative = (has_exp \<and> take 1 s4 = ''-'');
          s5 = (if has_exp \<and> (take 1 s4 = ''-'' \<or> take 1 s4 = ''+'') then drop 1 s4 else s4);
          ed = (if has_exp then takeWhile is_digit s5 else []);
          s6 = (if has_exp then dropWhile is_digit s5 else s5)
      in if ip = [] \<or> (length ip > 1 \<and> take 1 ip = ''0'') \<or> (has_frac \<and> fp = []) \<or>
            (has_exp \<and> ed = []) \<or> s6 \<noteq> []
         then None
         else Some (negative, ip, fp,
                (if exp_negative then - int_of_digits ed else int_of_digits ed)))"

text \<open>
  \<open>Number::toString\<close> of the value \<open>digits * 10 ^ exponent\<close>, for digits without
  leading or trailing zero: with \<open>k\<close> digits and the point after the \<open>n\<close>-th, plain
  digits up to 21 places, small fractions down to \<open>1e-7\<close>, otherwise exponent notation.
\<close>

definition print_decimal :: "string \<Rightarrow> int \<Rightarrow> string" where
  "print_decimal ds exponent =
     (let k = int (length ds); n = k + exponent in
      if k \<le> n \<and> n \<le> 21 then ds @ replicate (nat (n - k)) CHR ''0''
      else if 0 < n \<and> n \<le> 21 then take (nat n) ds @ ''.'' @ drop (nat n) ds
      else if - 6 < n \<and> n \<le> 0 then ''0.'' @ replicate (nat (- n)) CHR ''0'' @ ds
      else
        (let e = n - 1;
             es = (if e < 0 then ''-'' else ''+'') @ digits_of_nat (nat \<bar>e\<bar>)
         in if k = 1 then ds @ ''e'' @ es else take 1 ds @ ''.'' @ drop 1 ds @ ''e'' @ es))"

text \<open>
  The text JavaScript prints the number of a JSON text with. A number is a run of the
  characters of numbers that starts with \<open>-\<close> or a digit and follows the grammar; it
  is taken as its decimal value, which holds of every text of at most 15 significant
  digits within the range of a double.
\<close>

definition canon_number :: "string \<Rightarrow> string option" where
  "canon_number s =
     (if \<not> (list_all is_number_char s \<and> (take 1 s = ''-'' \<or> list_ex is_digit (take 1 s)))
      then None
      else
        (case number_parts s of
           None \<Rightarrow> None
         | Some (negative, ip, fp, exponent) \<Rightarrow>
             (let d1 = dropWhile (\<lambda>c. c = CHR ''0'') (ip @ fp);
                  d2 = rev (dropWhile (\<lambda>c. c = CHR ''0'') (rev d1))
              in if d1 = [] then Some ''0''
                 else Some ((if negative then ''-'' else []) @
                        print_decimal d2
                          (exponent - int (length fp) + int (length d1) - int (length d2))))))"

subsection \<open>Objects\<close>

text \<open>
  The order of the properties of an object: array indices first, ascending, then the
  other keys in the order they were added. Setting a key that is there keeps its place.
\<close>

definition is_index :: "string \<Rightarrow> bool" where
  "is_index k = (k \<noteq> [] \<and> list_all is_digit k \<and> (k = ''0'' \<or> take 1 k \<noteq> ''0'') \<and>
                 length k \<le> 10 \<and> int_of_digits k \<le> 4294967294)"

fun set_property :: "(string \<times> json) list \<Rightarrow> string \<times> json \<Rightarrow> (string \<times> json) list" where
  "set_property [] (k, v) = [(k, v)]"
| "set_property ((k', v') # ps) (k, v) =
     (if k' = k then (k, v) # ps
      else if k \<in> set (map fst ps) then (k', v') # set_property ps (k, v)
      else if is_index k \<and> (\<not> is_index k' \<or> int_of_digits k < int_of_digits k')
        then (k, v) # (k', v') # ps
      else (k', v') # set_property ps (k, v))"

definition properties :: "(string \<times> json) list \<Rightarrow> (string \<times> json) list" where
  "properties ps = foldl set_property [] ps"

subsection \<open>Writing\<close>

text \<open>
  \<open>JSON_stringify\<close> writes a value the way \<open>JSON.stringify\<close> does: no white space;
  in a string the double quote, the backslash and the control characters escaped, the
  latter as \<open>\b \f \n \r \t\<close> or \<open>\u00XX\<close>.
\<close>

definition hex_digit :: "nat \<Rightarrow> char" where
  "hex_digit n = ''0123456789abcdef'' ! n"

definition escape_char :: "char \<Rightarrow> string" where
  "escape_char c =
     (if c = CHR 0x22 then [CHR 0x5C, CHR 0x22]
      else if c = CHR 0x5C then [CHR 0x5C, CHR 0x5C]
      else if c = CHR 0x08 then [CHR 0x5C, CHR ''b'']
      else if c = CHR 0x0C then [CHR 0x5C, CHR ''f'']
      else if c = CHR 0x0A then [CHR 0x5C, CHR ''n'']
      else if c = CHR 0x0D then [CHR 0x5C, CHR ''r'']
      else if c = CHR 0x09 then [CHR 0x5C, CHR ''t'']
      else if (of_char c :: nat) < 32
        then [CHR 0x5C, CHR ''u'', CHR ''0'', CHR ''0'',
              hex_digit (of_char c div 16), hex_digit (of_char c mod 16)]
      else [c])"

definition quote :: "string \<Rightarrow> string" where
  "quote s = CHR 0x22 # concat (map escape_char s) @ [CHR 0x22]"

fun join_comma :: "string list \<Rightarrow> string" where
  "join_comma [] = []"
| "join_comma [x] = x"
| "join_comma (x # y # ys) = x @ CHR '','' # join_comma (y # ys)"

fun JSON_stringify :: "json \<Rightarrow> string" where
  "JSON_stringify JNull = ''null''"
| "JSON_stringify (JBool b) = (if b then ''true'' else ''false'')"
| "JSON_stringify (JNum n) = n"
| "JSON_stringify (JStr s) = quote s"
| "JSON_stringify (JArr xs) = CHR ''['' # join_comma (map JSON_stringify xs) @ [CHR '']'']"
| "JSON_stringify (JObj ps) =
     CHR ''{'' # join_comma (map (\<lambda>(k, v). quote k @ CHR '':'' # JSON_stringify v) ps) @ [CHR ''}'']"

text \<open>
  \<open>String(v)\<close>, the text JavaScript turns a value into where it needs a string: an
  array is its elements joined by commas, \<open>null\<close> among them being empty.
\<close>

fun to_string :: "json \<Rightarrow> string" where
  "to_string JNull = ''null''"
| "to_string (JBool b) = (if b then ''true'' else ''false'')"
| "to_string (JNum n) = n"
| "to_string (JStr s) = s"
| "to_string (JArr xs) = join_comma (map (\<lambda>x. if x = JNull then [] else to_string x) xs)"
| "to_string (JObj ps) = ''[object Object]''"

text \<open>JavaScript truthiness, for \<open>||\<close>.\<close>

fun truthy :: "json \<Rightarrow> bool" where
  "truthy JNull = False"
| "truthy (JBool b) = b"
| "truthy (JNum n) = (n \<noteq> ''0'')"
| "truthy (JStr s) = (s \<noteq> [])"
| "truthy (JArr xs) = True"
| "truthy (JObj ps) = True"

subsection \<open>Reading\<close>

text \<open>
  \<open>JSON_parse\<close> reads a text by the grammar of JSON, with its insignificant white space
  and every escape of a string; a \<open>\uXXXX\<close> escape beyond the modelled code units is
  refused. A number is the longest run of the characters of numbers, which must be a
  number. The parser recurses on fuel, started at the length of the text; \<open>None\<close> is the
  \<open>SyntaxError\<close> of \<open>JSON.parse\<close>.
\<close>

definition skip_ws :: "string \<Rightarrow> string" where
  "skip_ws s = dropWhile (\<lambda>c. c \<in> {CHR '' '', CHR 0x09, CHR 0x0A, CHR 0x0D}) s"

definition hex_val :: "char \<Rightarrow> nat option" where
  "hex_val c =
     (if in_cls (Range CHR ''0'' CHR ''9'') c then Some (of_char c - 48)
      else if in_cls (Range CHR ''a'' CHR ''f'') c then Some (of_char c - 87)
      else if in_cls (Range CHR ''A'' CHR ''F'') c then Some (of_char c - 55)
      else None)"

definition unescape :: "char \<Rightarrow> char option" where
  "unescape e =
     (if e = CHR 0x22 then Some (CHR 0x22)
      else if e = CHR 0x5C then Some (CHR 0x5C)
      else if e = CHR ''/'' then Some (CHR ''/'')
      else if e = CHR ''b'' then Some (CHR 0x08)
      else if e = CHR ''f'' then Some (CHR 0x0C)
      else if e = CHR ''n'' then Some (CHR 0x0A)
      else if e = CHR ''r'' then Some (CHR 0x0D)
      else if e = CHR ''t'' then Some (CHR 0x09)
      else None)"

definition unicode_escape :: "string \<Rightarrow> char option" where
  "unicode_escape hs =
     (case map hex_val hs of
        [Some a, Some b, Some c, Some d] \<Rightarrow>
          (if a = 0 \<and> b = 0 then Some (char_of (16 * c + d)) else None)
      | _ \<Rightarrow> None)"

fun parse_chars :: "string \<Rightarrow> (string \<times> string) option" where
  "parse_chars [] = None"
| "parse_chars (c # r) =
     (if c = CHR 0x22 then Some ([], r)
      else if c = CHR 0x5C then
        (case r of
           [] \<Rightarrow> None
         | e # r' \<Rightarrow>
             if e = CHR ''u'' then
               (case unicode_escape (take 4 r') of
                  None \<Rightarrow> None
                | Some d \<Rightarrow> map_option (\<lambda>(s, t). (d # s, t)) (parse_chars (drop 4 r')))
             else
               (case unescape e of
                  None \<Rightarrow> None
                | Some d \<Rightarrow> map_option (\<lambda>(s, t). (d # s, t)) (parse_chars r')))
      else if (of_char c :: nat) < 32 then None
      else map_option (\<lambda>(s, t). (c # s, t)) (parse_chars r))"

definition strip_prefix :: "string \<Rightarrow> string \<Rightarrow> string option" where
  "strip_prefix p s = (if take (length p) s = p then Some (drop (length p) s) else None)"

fun parse_value :: "nat \<Rightarrow> string \<Rightarrow> (json \<times> string) option"
  and parse_elements :: "nat \<Rightarrow> string \<Rightarrow> (json list \<times> string) option"
  and parse_members :: "nat \<Rightarrow> string \<Rightarrow> ((string \<times> json) list \<times> string) option" where
  "parse_value 0 s = None"
| "parse_value (Suc n) s =
     (case skip_ws s of
        [] \<Rightarrow> None
      | c # r \<Rightarrow>
          if c = CHR 0x22 then map_option (\<lambda>(x, t). (JStr x, t)) (parse_chars r)
          else if c = CHR ''['' then
            (case skip_ws r of
               [] \<Rightarrow> None
             | d # r' \<Rightarrow>
                 if d = CHR '']'' then Some (JArr [], r')
                 else map_option (\<lambda>(xs, t). (JArr xs, t)) (parse_elements n r))
          else if c = CHR ''{'' then
            (case skip_ws r of
               [] \<Rightarrow> None
             | d # r' \<Rightarrow>
                 if d = CHR ''}'' then Some (JObj [], r')
                 else map_option (\<lambda>(ps, t). (JObj (properties ps), t)) (parse_members n r))
          else if c = CHR ''-'' \<or> is_digit c then
            map_option (\<lambda>x. (JNum x, dropWhile is_number_char (c # r)))
              (canon_number (takeWhile is_number_char (c # r)))
          else
            (case strip_prefix ''null'' (c # r) of Some t \<Rightarrow> Some (JNull, t) | None \<Rightarrow>
            (case strip_prefix ''true'' (c # r) of Some t \<Rightarrow> Some (JBool True, t) | None \<Rightarrow>
            (case strip_prefix ''false'' (c # r) of Some t \<Rightarrow> Some (JBool False, t) | None \<Rightarrow>
               None))))"
| "parse_elements 0 s = None"
| "parse_elements (Suc n) s =
     (case parse_value n s of
        None \<Rightarrow> None
      | Some (v, r) \<Rightarrow>
          (case skip_ws r of
             [] \<Rightarrow> None
           | c # r' \<Rightarrow>
               if c = CHR '','' then map_option (\<lambda>(vs, t). (v # vs, t)) (parse_elements n r')
               else if c = CHR '']'' then Some ([v], r')
               else None))"
| "parse_members 0 s = None"
| "parse_members (Suc n) s =
     (case skip_ws s of
        [] \<Rightarrow> None
      | q # r \<Rightarrow>
          if q \<noteq> CHR 0x22 then None
          else
            (case parse_chars r of
               None \<Rightarrow> None
             | Some (k, r1) \<Rightarrow>
                 (case skip_ws r1 of
                    [] \<Rightarrow> None
                  | c # r2 \<Rightarrow>
                      if c \<noteq> CHR '':'' then None
                      else
                        (case parse_value n r2 of
                           None \<Rightarrow> None
                         | Some (v, r3) \<Rightarrow>
                             (case skip_ws r3 of
                                [] \<Rightarrow> None
                              | d # r4 \<Rightarrow>
                                  if d = CHR '','' then
                                    map_option (\<lambda>(ps, t). ((k, v) # ps, t)) (parse_members n r4)
                                  else if d = CHR ''}'' then Some ([(k, v)], r4)
                                  else None)))))"

definition JSON_parse :: "string \<Rightarrow> json option" where
  "JSON_parse s =
     (case parse_value (length s) s of
        None \<Rightarrow> None
      | Some (v, r) \<Rightarrow> if skip_ws r = [] then Some v else None)"

text \<open>
  The values that are JavaScript values: a number is the text JavaScript prints it
  with, the properties of an object are in their order. The body of a request, parsed
  by JavaScript, is such a value.
\<close>

fun wf_json :: "json \<Rightarrow> bool" where
  "wf_json (JNum n) = (canon_number n = Some n)"
| "wf_json (JArr xs) = list_all wf_json xs"
| "wf_json (JObj ps) = (properties ps = ps \<and> list_all (\<lambda>(k, v). wf_json v) ps)"
| "wf_json v = True"


section \<open>The server: request bodies and validation\<close>

text \<open>
  The body of a create or update request, with the field types of the interface: \<open>name\<close>,
  \<open>email\<close> and \<open>role\<close> strings, \<open>password\<close> and \<open>phone\<close> strings that may be absent
  (\<open>None\<close> is JavaScript's \<open>undefined\<close>), \<open>skills\<close> any JSON value or absent.
\<close>

record body =
  b_name :: string
  b_email :: string
  b_password :: "string option"
  b_phone :: "string option"
  b_role :: string
  b_skills :: "json option"

datatype meth = POST | PUT

text \<open>
  What the source takes from its libraries and this development does not define:
  \<open>isEmail\<close> of the validation library and the salted hash \<open>bcrypt.hash(password, salt)\<close>.
  The salt that \<open>bcrypt.genSalt(12)\<close> draws at random is an argument of the operations.
\<close>

record lib =
  isEmail :: "string \<Rightarrow> bool"
  bcrypt_hash :: "string \<Rightarrow> string \<Rightarrow> string"

text \<open>A validation error: the field and the message.\<close>

type_synonym verr = "string \<times> string"

text \<open>
  The chain \<open>passwordValidation\<close>: every check that fails adds its message. It runs on
  the field as a string, an absent field being the empty string.
\<close>

definition passwordValidation :: "string \<Rightarrow> verr list" where
  "passwordValidation v =
     (if 8 \<le> length v then [] else [(''password'', ''Password must be at least 8 characters'')]) @
     (if test_class upper_class v then []
      else [(''password'', ''Password must contain at least one uppercase letter'')]) @
     (if test_class lower_class v then []
      else [(''password'', ''Password must contain at least one lowercase letter'')]) @
     (if test_class digit_class v then []
      else [(''password'', ''Password must contain at least one number'')]) @
     (if test_class special_class v then []
      else [(''password'', ''Password must contain at least one special character'')])"

text \<open>
  The custom check on \<open>password\<close>: skipped on \<open>PUT\<close> when the value is falsy or blank;
  otherwise it runs \<open>passwordValidation\<close> on the request, whose errors are recorded with
  the request, and itself passes.
\<close>

definition password_custom :: "meth \<Rightarrow> string option \<Rightarrow> verr list" where
  "password_custom m v =
     (if m = PUT \<and> (case v of None \<Rightarrow> True | Some p \<Rightarrow> p = [] \<or> trim p = []) then []
      else passwordValidation (case v of None \<Rightarrow> [] | Some p \<Rightarrow> p))"

text \<open>
  \<open>validateUser\<close> followed by \<open>validationResult(req).array()\<close>: the errors of the six
  checks in their order. \<open>optional()\<close> skips a field that is \<open>undefined\<close>.
\<close>

definition validateUser :: "lib \<Rightarrow> meth \<Rightarrow> body \<Rightarrow> verr list" where
  "validateUser L m b =
     (if 2 \<le> length (trim (b_name b)) then []
      else [(''name'', ''Name must be at least 2 characters'')]) @
     (if isEmail L (b_email b) then [] else [(''email'', ''Invalid email address'')]) @
     password_custom m (b_password b) @
     (if b_role b \<in> set [''user'', ''admin'', ''developer''] then []
      else [(''role'', ''Invalid role'')]) @
     (case b_phone b of
        None \<Rightarrow> []
      | Some p \<Rightarrow> if match_seq phone_regex p then []
                  else [(''phone'', ''Invalid phone number format'')]) @
     (case b_skills b of
        Some (JArr xs) \<Rightarrow> []
      | _ \<Rightarrow> [(''skills'', ''Skills must be an array'')])"

text \<open>
  The sanitizer \<open>trim()\<close> in the chain of \<open>name\<close> writes the trimmed value back into the
  request, so the handlers read it from \<open>req.body\<close>.
\<close>

definition sanitize :: "body \<Rightarrow> body" where
  "sanitize b = b\<lparr>b_name := trim (b_name b)\<rparr>"


section \<open>The server: the \<open>users\<close> table\<close>

text \<open>
  A row of the table created by \<open>initializeDatabase\<close>; \<open>phone\<close> and \<open>skills\<close> are
  nullable. \<open>skills\<close> holds the JSON document as the text that was written. The two
  timestamps are kept by the server, which reads the time \<open>now\<close> (in seconds) for a
  statement: an insert sets both, an update sets \<open>updated_at\<close> when it changes a column
  of the row. The table is its rows, in insertion order, with the counter of
  \<open>AUTO_INCREMENT\<close>. A comparison in a statement (\<open>email = ?\<close>, \<open>id = ?\<close>) is equality
  of the values.
\<close>

record user_row =
  u_id :: nat
  u_name :: string
  u_email :: string
  u_password :: string
  u_phone :: "string option"
  u_role :: string
  u_skills :: "string option"
  u_created_at :: nat
  u_updated_at :: nat

record store =
  rows :: "user_row list"
  next_id :: nat

definition empty_store :: store where
  "empty_store = \<lparr>rows = [], next_id = 1\<rparr>"

text \<open>
  The column widths \<open>VARCHAR(100)\<close>, \<open>VARCHAR(100)\<close> and \<open>VARCHAR(20)\<close> of \<open>name\<close>,
  \<open>email\<close> and \<open>phone\<close>: in strict SQL mode, the default of every server that has the
  \<open>JSON\<close> column type, a longer value is an error. The hash column is wide enough for any
  bcrypt hash (60 characters), \<open>role\<close> has been validated against the enumeration and
  the text given for \<open>skills\<close> is one that \<open>JSON.stringify\<close> wrote.
\<close>

definition fits_columns :: "string \<Rightarrow> string \<Rightarrow> string \<Rightarrow> bool" where
  "fits_columns name email phone =
     (length name \<le> 100 \<and> length email \<le> 100 \<and> length phone \<le> 20)"

text \<open>
  \<open>pool.execute\<close> of the \<open>INSERT\<close> statement. \<open>None\<close> is a rejected promise: the driver
  refuses a bind parameter that is \<open>undefined\<close> (only \<open>phone\<close> can be), the server a value
  too long for its column or an email that a row already has (\<open>UNIQUE\<close>). Otherwise the
  row is added under the next id, which is returned as \<open>insertId\<close>.
\<close>

definition insert_user ::
  "string \<Rightarrow> string \<Rightarrow> string \<Rightarrow> string option \<Rightarrow> string \<Rightarrow> string \<Rightarrow> nat \<Rightarrow> store \<Rightarrow>
   (nat \<times> store) option" where
  "insert_user name email hash phone role skills now st =
     (case phone of
        None \<Rightarrow> None
      | Some ph \<Rightarrow>
          if \<not> fits_columns name email ph then None
          else if list_ex (\<lambda>r. u_email r = email) (rows st) then None
          else Some (next_id st,
                 st\<lparr>rows := rows st @
                      [\<lparr>u_id = next_id st, u_name = name, u_email = email, u_password = hash,
                        u_phone = Some ph, u_role = role, u_skills = Some skills,
                        u_created_at = now, u_updated_at = now\<rparr>],
                    next_id := Suc (next_id st)\<rparr>))"

text \<open>
  \<open>ON UPDATE CURRENT_TIMESTAMP\<close>: a row that an update leaves with the values it had
  keeps its \<open>updated_at\<close>; a row with a changed column gets the time of the update.
\<close>

definition on_update :: "nat \<Rightarrow> user_row \<Rightarrow> user_row \<Rightarrow> user_row" where
  "on_update now r r' = (if r' = r then r else r'\<lparr>u_updated_at := now\<rparr>)"

text \<open>
  \<open>pool.execute\<close> of the two \<open>UPDATE ... WHERE id = ?\<close> statements: \<open>hash\<close> is the new
  value of the password column, or \<open>None\<close> for the statement that does not set it.
\<close>

definition update_user ::
  "string \<Rightarrow> string \<Rightarrow> string option \<Rightarrow> string option \<Rightarrow> string \<Rightarrow> string \<Rightarrow> nat \<Rightarrow> nat \<Rightarrow>
   store \<Rightarrow> store option" where
  "update_user name email hash phone role skills now uid st =
     (case phone of
        None \<Rightarrow> None
      | Some ph \<Rightarrow>
          if \<not> fits_columns name email ph then None
          else if list_ex (\<lambda>r. u_id r = uid) (rows st) \<and>
                  list_ex (\<lambda>r. u_id r \<noteq> uid \<and> u_email r = email) (rows st) then None
          else Some (st\<lparr>rows :=
                 map (\<lambda>r. if u_id r = uid
                           then on_update now r
                                  (r\<lparr>u_name := name, u_email := email,
                                     u_password :=
                                       (case hash of None \<Rightarrow> u_password r | Some h \<Rightarrow> h),
                                     u_phone := Some ph, u_role := role,
                                     u_skills := Some skills\<rparr>)
                           else r)
                   (rows st)\<rparr>))"


section \<open>The server: the five operations\<close>

text \<open>
  A response is its status and its JSON body. An object is the list of its properties;
  \<open>VJson\<close> embeds a value of \<open>skills\<close>. The id of the path is taken as the number the
  server compares it by.
\<close>

datatype jsval = VNum nat | VStr string | VNull | VJson json

type_synonym obj = "(string \<times> jsval) list"

datatype rbody = Message string | Errors "verr list" | Obj obj | Objs "obj list"

type_synonym response = "nat \<times> rbody"

definition server_error :: response where
  "server_error = (500, Message ''Server error'')"

text \<open>
  What a \<open>SELECT\<close> hands over as \<open>skills\<close>: the driver parses a column of type \<open>JSON\<close>,
  so the row holds the value of the document, \<open>null\<close> for \<open>NULL\<close>. The column is taken
  to hold the document as it was written; the normal form that the server gives a
  document (the order of the keys of an object) is not modelled.
\<close>

definition driver_json :: "string option \<Rightarrow> json option" where
  "driver_json col = (case col of None \<Rightarrow> Some JNull | Some t \<Rightarrow> JSON_parse t)"

text \<open>
  \<open>JSON.parse(user.skills || '[]')\<close> on that value: \<open>JSON.parse\<close> turns its argument
  into a string first.
\<close>

definition decode_skills :: "json \<Rightarrow> json option" where
  "decode_skills v = JSON_parse (if truthy v then to_string v else ''[]'')"

text \<open>
  A row as \<open>SELECT id, name, email, phone, role, skills\<close> returns it, its \<open>skills\<close>
  replaced by the decoded value.
\<close>

definition user_view :: "user_row \<Rightarrow> json \<Rightarrow> obj" where
  "user_view r v =
     [(''id'', VNum (u_id r)), (''name'', VStr (u_name r)), (''email'', VStr (u_email r)),
      (''phone'', (case u_phone r of None \<Rightarrow> VNull | Some p \<Rightarrow> VStr p)),
      (''role'', VStr (u_role r)), (''skills'', VJson v)]"

text \<open>One row of a response, or \<open>None\<close> when the driver or the handler throws.\<close>

definition read_user :: "user_row \<Rightarrow> obj option" where
  "read_user r =
     (case driver_json (u_skills r) of
        None \<Rightarrow> None
      | Some v \<Rightarrow> map_option (user_view r) (decode_skills v))"

definition getUsers :: "store \<Rightarrow> response" where
  "getUsers st =
     (case those (map read_user (rows st)) of
        None \<Rightarrow> server_error
      | Some users \<Rightarrow> (200, Objs users))"

definition getUser :: "nat \<Rightarrow> store \<Rightarrow> response" where
  "getUser uid st =
     (case filter (\<lambda>r. u_id r = uid) (rows st) of
        [] \<Rightarrow> (404, Message ''User not found'')
      | r # _ \<Rightarrow>
          (case read_user r of
             None \<Rightarrow> server_error
           | Some user \<Rightarrow> (200, Obj user)))"

text \<open>\<open>skills || []\<close> of the handlers that write.\<close>

definition skills_or_empty :: "json option \<Rightarrow> json" where
  "skills_or_empty v = (case v of None \<Rightarrow> JArr [] | Some j \<Rightarrow> if truthy j then j else JArr [])"

text \<open>A property whose value is \<open>undefined\<close> is not written into a JSON body.\<close>

definition property :: "string \<Rightarrow> jsval option \<Rightarrow> obj" where
  "property k v = (case v of None \<Rightarrow> [] | Some x \<Rightarrow> [(k, x)])"

definition createUser :: "lib \<Rightarrow> string \<Rightarrow> nat \<Rightarrow> body \<Rightarrow> store \<Rightarrow> response \<times> store" where
  "createUser L salt now req st =
     (let errors = validateUser L POST req; b = sanitize req in
      if errors \<noteq> [] then ((400, Errors errors), st)
      else if list_ex (\<lambda>r. u_email r = b_email b) (rows st)
        then ((400, Message ''Email already registered''), st)
      else
        (case b_password b of
           None \<Rightarrow> (server_error, st)
         | Some password \<Rightarrow>
             (case insert_user (b_name b) (b_email b) (bcrypt_hash L password salt) (b_phone b)
                     (b_role b) (JSON_stringify (skills_or_empty (b_skills b))) now st of
                None \<Rightarrow> (server_error, st)
              | Some (insertId, st') \<Rightarrow>
                  ((201, Obj ([(''id'', VNum insertId), (''name'', VStr (b_name b)),
                               (''email'', VStr (b_email b))] @
                              property ''phone'' (map_option VStr (b_phone b)) @
                              [(''role'', VStr (b_role b))] @
                              property ''skills'' (map_option VJson (b_skills b)))),
                   st'))))"

definition updateUser :: "lib \<Rightarrow> string \<Rightarrow> nat \<Rightarrow> nat \<Rightarrow> body \<Rightarrow> store \<Rightarrow> response \<times> store" where
  "updateUser L salt now userId req st =
     (let errors = validateUser L PUT req; b = sanitize req in
      if errors \<noteq> [] then ((400, Errors errors), st)
      else if \<not> list_ex (\<lambda>r. u_id r = userId) (rows st)
        then ((404, Message ''User not found''), st)
      else if b_email b \<noteq> [] \<and> list_ex (\<lambda>r. u_email r = b_email b \<and> u_id r \<noteq> userId) (rows st)
        then ((400, Message ''Email already in use by another account''), st)
      else
        (case update_user (b_name b) (b_email b)
                (case b_password b of
                   None \<Rightarrow> None
                 | Some password \<Rightarrow>
                     if password \<noteq> [] \<and> trim password \<noteq> []
                     then Some (bcrypt_hash L password salt) else None)
                (b_phone b) (b_role b) (JSON_stringify (skills_or_empty (b_skills b)))
                now userId st of
           None \<Rightarrow> (server_error, st)
         | Some st' \<Rightarrow> ((200, Message ''User updated successfully''), st')))"

text \<open>
  \<open>DELETE FROM users WHERE id = ?\<close> runs first; the response depends on the number of
  rows it removed.
\<close>

definition deleteUser :: "nat \<Rightarrow> store \<Rightarrow> response \<times> store" where
  "deleteUser uid st =
     (let affectedRows = length (filter (\<lambda>r. u_id r = uid) (rows st));
          st' = st\<lparr>rows := filter (\<lambda>r. u_id r \<noteq> uid) (rows st)\<rparr>
      in if affectedRows = 0 then ((404, Message ''User not found''), st')
         else ((200, Message ''User deleted successfully''), st'))"


section \<open>Invariants of the table and a sample library\<close>

text \<open>
  What the table keeps by itself: ids are distinct (\<open>PRIMARY KEY\<close>), emails are distinct
  (\<open>UNIQUE\<close>), and every id is positive and below the counter (\<open>AUTO_INCREMENT\<close>).
\<close>

definition wf_store :: "store \<Rightarrow> bool" where
  "wf_store st =
     (distinct (map u_id (rows st)) \<and> distinct (map u_email (rows st)) \<and>
      0 < next_id st \<and> list_all (\<lambda>r. 0 < u_id r \<and> u_id r < next_id st) (rows st))"

text \<open>
  The \<open>skills\<close> column of every row holds the serialization of an array whose elements
  satisfy \<open>P\<close>.
\<close>

definition skills_inv :: "(json \<Rightarrow> bool) \<Rightarrow> store \<Rightarrow> bool" where
  "skills_inv P st =
     (\<forall>r \<in> set (rows st). \<exists>xs. u_skills r = Some (JSON_stringify (JArr xs)) \<and> list_all P xs)"

fun is_string :: "json \<Rightarrow> bool" where
  "is_string (JStr s) = True"
| "is_string v = False"

text \<open>
  The theorems hold for every library; where one is evaluated at a concrete request, the
  library is this sample: an email has an \<open>@\<close>, a hash is the salt followed by the
  password (like bcrypt's, it starts with its salt).
\<close>

definition sample_lib :: lib where
  "sample_lib = \<lparr>isEmail = (\<lambda>s. CHR ''@'' \<in> set s),
                  bcrypt_hash = (\<lambda>password salt. salt @ password)\<rparr>"


section \<open>Properties of the password policy of the form\<close>

lemma in_range_list:
  assumes "map of_char L = [of_char lo..<Suc (of_char hi :: nat)]"
  shows "in_cls (Range lo hi) c \<longleftrightarrow> c \<in> set L"
proof -
  have "c \<in> set L \<longleftrightarrow> (of_char c :: nat) \<in> of_char ` set L"
    by (auto dest: injD [OF inj_of_char])
  also have "\<dots> \<longleftrightarrow> (of_char c :: nat) \<in> set [of_char lo..<Suc (of_char hi)]"
    unfolding assms [symmetric] by simp
  also have "\<dots> \<longleftrightarrow> in_cls (Range lo hi) c"
    by (simp only: set_upt atLeastLessThan_iff less_Suc_eq_le in_cls.simps)
  finally show ?thesis by simp
qed

lemma upper_iff: "in_class upper_class c \<longleftrightarrow> c \<in> set ''ABCDEFGHIJKLMNOPQRSTUVWXYZ''"
  unfolding in_class_def upper_class_def list_ex_iff
  using in_range_list [of "''ABCDEFGHIJKLMNOPQRSTUVWXYZ''" "CHR ''A''" "CHR ''Z''" c]
  by (simp add: upt_rec del: in_cls.simps)

lemma lower_iff: "in_class lower_class c \<longleftrightarrow> c \<in> set ''abcdefghijklmnopqrstuvwxyz''"
  unfolding in_class_def lower_class_def list_ex_iff
  using in_range_list [of "''abcdefghijklmnopqrstuvwxyz''" "CHR ''a''" "CHR ''z''" c]
  by (simp add: upt_rec del: in_cls.simps)

lemma digit_iff: "in_class digit_class c \<longleftrightarrow> c \<in> set ''0123456789''"
  unfolding in_class_def digit_class_def list_ex_iff
  using in_range_list [of "''0123456789''" "CHR ''0''" "CHR ''9''" c]
  by (simp add: upt_rec del: in_cls.simps)

lemma special_iff:
  "in_class special_class c \<longleftrightarrow> c \<in> set (''!@#$%^&*(),.?'' @ [CHR 0x22] @ '':{}|<>'')"
  unfolding in_class_def special_class_def list_ex_iff
  by (simp del: set_simps set_append) auto

text \<open>
  C2. For every password, with the criteria state settled on it, \<open>isPasswordValid\<close> is
  true if and only if all five criteria hold (at least 8 characters, an uppercase letter,
  a lowercase letter, a digit, a character of the fixed special set), except that it is
  true whenever a record is being edited and the password field is empty. Ids are those
  the table assigns, which start at 1.
\<close>

theorem isPasswordValid_iff:
  assumes "editingId \<noteq> Some 0"
  shows "isPasswordValid editingId password (validatePassword password) \<longleftrightarrow>
     (editingId \<noteq> None \<and> password = []) \<or>
     (8 \<le> length password \<and>
      (\<exists>c \<in> set password. c \<in> set ''ABCDEFGHIJKLMNOPQRSTUVWXYZ'') \<and>
      (\<exists>c \<in> set password. c \<in> set ''abcdefghijklmnopqrstuvwxyz'') \<and>
      (\<exists>c \<in> set password. c \<in> set ''0123456789'') \<and>
      (\<exists>c \<in> set password. c \<in> set (''!@#$%^&*(),.?'' @ [CHR 0x22] @ '':{}|<>'')))"
proof -
  have t: "truthy_id editingId \<longleftrightarrow> editingId \<noteq> None"
    using assms by (cases editingId) (auto simp: truthy_id_def)
  show ?thesis
    unfolding isPasswordValid_def validatePassword_def test_class_def list_ex_iff t
      upper_iff lower_iff digit_iff special_iff
    by auto
qed

theorem isPasswordValid_iff_witness:
  "isPasswordValid (Some 7) [] (validatePassword []) \<and>
   isPasswordValid None ''Passw0rd!'' (validatePassword ''Passw0rd!'') \<and>
   \<not> isPasswordValid None ''password'' (validatePassword ''password'') \<and>
   \<not> isPasswordValid (Some 7) ''Passw0rd'' (validatePassword ''Passw0rd'')"
  using isPasswordValid_iff [of "Some 7" "[]"] isPasswordValid_iff [of None "''Passw0rd!''"]
    isPasswordValid_iff [of None "''password''"] isPasswordValid_iff [of "Some 7" "''Passw0rd''"]
  by simp


section \<open>Properties of the JSON functions\<close>

text \<open>
  Parsing what \<open>JSON_stringify\<close> wrote gives the value back, for the values that are
  JavaScript values: first for the characters of a string and for a number, then for a
  value followed by any text that does not go on as a number, with the elements of an
  array and the members of an object in between. The length of the text is fuel enough.
\<close>

lemma hex_val_hex_digit_all: "list_all (\<lambda>n. hex_val (hex_digit n) = Some n) [0..<16]"
  by code_simp

lemma hex_val_hex_digit: "n < 16 \<Longrightarrow> hex_val (hex_digit n) = Some n"
  using hex_val_hex_digit_all unfolding list_all_iff by simp

lemma unicode_escape_control:
  assumes "(of_char c :: nat) < 32"
  shows "unicode_escape [CHR ''0'', CHR ''0'', hex_digit (of_char c div 16), hex_digit (of_char c mod 16)]
         = Some c"
proof -
  have d: "(of_char c :: nat) div 16 < 16" using assms by simp
  have m: "(of_char c :: nat) mod 16 < 16" by simp
  have z: "hex_val CHR ''0'' = Some 0" by (simp add: hex_val_def)
  show ?thesis
    by (simp add: unicode_escape_def z hex_val_hex_digit [OF d] hex_val_hex_digit [OF m])
qed

lemma parse_chars_escape:
  "parse_chars (escape_char c @ t) = map_option (\<lambda>(s, r). (c # s, r)) (parse_chars t)"
proof -
  consider (quote) "c = CHR 0x22" | (backslash) "c = CHR 0x5C"
    | (named) "c \<in> {CHR 0x08, CHR 0x0C, CHR 0x0A, CHR 0x0D, CHR 0x09}"
    | (control) "c \<notin> {CHR 0x22, CHR 0x5C, CHR 0x08, CHR 0x0C, CHR 0x0A, CHR 0x0D, CHR 0x09}"
        "(of_char c :: nat) < 32"
    | (plain) "c \<notin> {CHR 0x22, CHR 0x5C, CHR 0x08, CHR 0x0C, CHR 0x0A, CHR 0x0D, CHR 0x09}"
        "\<not> (of_char c :: nat) < 32"
    by blast
  then show ?thesis
  proof cases
    case quote
    then show ?thesis by (simp add: escape_char_def unescape_def)
  next
    case backslash
    then show ?thesis by (simp add: escape_char_def unescape_def)
  next
    case named
    then show ?thesis by (auto simp: escape_char_def unescape_def)
  next
    case control
    then show ?thesis
      by (simp add: escape_char_def unicode_escape_control)
  next
    case plain
    then show ?thesis by (simp add: escape_char_def)
  qed
qed

lemma parse_chars_quote:
  "parse_chars (concat (map escape_char s) @ CHR 0x22 # rest) = Some (s, rest)"
  by (induction s) (simp_all add: parse_chars_escape)

lemma skip_ws_start:
  "c \<notin> {CHR '' '', CHR 0x09, CHR 0x0A, CHR 0x0D} \<Longrightarrow> skip_ws (c # r) = c # r"
  by (simp add: skip_ws_def)

lemma skip_ws_Nil: "skip_ws [] = []"
  by (simp add: skip_ws_def)


lemma is_digit_iff: "is_digit c \<longleftrightarrow> c \<in> set ''0123456789''"
  unfolding is_digit_def
  using in_range_list [of "''0123456789''" "CHR ''0''" "CHR ''9''" c]
  by (simp add: upt_rec del: in_cls.simps)

lemma wf_number:
  assumes "wf_json (JNum n)"
  shows "canon_number n = Some n" and "list_all is_number_char n"
    and "\<exists>c r. n = c # r \<and> (c = CHR ''-'' \<or> is_digit c)"
proof -
  show c: "canon_number n = Some n" using assms by simp
  then have g: "list_all is_number_char n" "take 1 n = ''-'' \<or> list_ex is_digit (take 1 n)"
    by (auto simp: canon_number_def split: if_splits)
  show "list_all is_number_char n" by (rule g)
  show "\<exists>c r. n = c # r \<and> (c = CHR ''-'' \<or> is_digit c)" using g(2) by (cases n) auto
qed

lemma starts_value_stringify:
  assumes "wf_json v"
  shows "\<exists>c r. JSON_stringify v @ t = c # r \<and>
           (c \<in> {CHR ''n'', CHR ''t'', CHR ''f'', CHR 0x22, CHR ''['', CHR ''{'', CHR ''-''} \<or> is_digit c)"
proof (cases v)
  case (JNum n)
  then show ?thesis using wf_number(3) [of n] assms by auto
qed (simp_all add: quote_def)

lemma value_start_facts:
  assumes "c \<in> {CHR ''n'', CHR ''t'', CHR ''f'', CHR 0x22, CHR ''['', CHR ''{'', CHR ''-''} \<or> is_digit c"
  shows "skip_ws (c # r) = c # r" and "c \<noteq> CHR '']''" and "c \<noteq> CHR ''}''"
  using assms by (auto simp: skip_ws_def is_digit_iff)

lemma starts_value_join:
  assumes "xs \<noteq> []" and "list_all wf_json xs"
  shows "\<exists>c r. join_comma (map JSON_stringify xs) @ t = c # r \<and>
           (c \<in> {CHR ''n'', CHR ''t'', CHR ''f'', CHR 0x22, CHR ''['', CHR ''{'', CHR ''-''} \<or> is_digit c)"
proof (cases xs)
  case Nil
  with assms show ?thesis by simp
next
  case (Cons x ys)
  then have w: "wf_json x" using assms(2) by simp
  show ?thesis
  proof (cases ys)
    case Nil
    with Cons show ?thesis using starts_value_stringify [OF w, of t] by simp
  next
    case (Cons y zs)
    with \<open>xs = x # ys\<close> show ?thesis
      using starts_value_stringify
        [OF w, of "CHR '','' # join_comma (map JSON_stringify (y # zs)) @ t"]
      by simp
  qed
qed

lemma take_number:
  assumes "list_all is_number_char n" and "rest = [] \<or> \<not> is_number_char (hd rest)"
  shows "takeWhile is_number_char (n @ rest) = n" and "dropWhile is_number_char (n @ rest) = rest"
proof -
  have t: "takeWhile is_number_char rest = []" "dropWhile is_number_char rest = rest"
    using assms(2) by (cases rest; simp)+
  show "takeWhile is_number_char (n @ rest) = n"
    using assms(1) t by (simp add: list_all_iff takeWhile_append2)
  show "dropWhile is_number_char (n @ rest) = rest"
    using assms(1) t by (simp add: list_all_iff dropWhile_append2)
qed

lemma parse_number:
  assumes "wf_json (JNum n)" and "rest = [] \<or> \<not> is_number_char (hd rest)"
  shows "parse_value (Suc k) (n @ rest) = Some (JNum n, rest)"
proof -
  from wf_number(3) [OF assms(1)] obtain c r where n: "n = c # r" "c = CHR ''-'' \<or> is_digit c"
    by blast
  have s: "skip_ws (c # r @ rest) = c # r @ rest" "c \<noteq> CHR 0x22" "c \<noteq> CHR ''[''" "c \<noteq> CHR ''{''"
    using n(2) by (auto simp: skip_ws_def is_digit_iff)
  have t: "takeWhile is_number_char (c # r @ rest) = n" "dropWhile is_number_char (c # r @ rest) = rest"
    using take_number [OF wf_number(2) [OF assms(1)] assms(2)] n(1) by simp_all
  have "parse_value (Suc k) (c # r @ rest) = Some (JNum n, rest)"
    unfolding parse_value.simps s list.case
    using s(2-4) n(2) by (simp add: t wf_number(1) [OF assms(1)] del: takeWhile.simps dropWhile.simps)
  then show ?thesis by (simp add: n(1))
qed

lemma parse_elements_join:
  assumes "\<And>x n rest. x \<in> set xs \<Longrightarrow> rest = [] \<or> \<not> is_number_char (hd rest) \<Longrightarrow>
             length (JSON_stringify x) \<le> n \<Longrightarrow>
             parse_value n (JSON_stringify x @ rest) = Some (x, rest)"
    and "xs \<noteq> []"
    and "Suc (length (join_comma (map JSON_stringify xs))) \<le> m"
  shows "parse_elements m (join_comma (map JSON_stringify xs) @ CHR '']'' # rest) = Some (xs, rest)"
  using assms
proof (induction xs arbitrary: m)
  case Nil
  then show ?case by simp
next
  case (Cons x ys)
  from Cons.prems(3) obtain k where m: "m = Suc k" by (cases m) auto
  have nn: "\<not> is_number_char CHR '']''" "\<not> is_number_char CHR '',''"
    by (simp_all add: is_number_char_def is_digit_iff)
  show ?case
  proof (cases ys)
    case Nil
    have "length (JSON_stringify x) \<le> k" using Cons.prems(3) Nil m by simp
    then have "parse_value k (JSON_stringify x @ CHR '']'' # rest) = Some (x, CHR '']'' # rest)"
      using Cons.prems(1) [of x "CHR '']'' # rest" k] nn by simp
    then show ?thesis using Nil m by (simp add: skip_ws_start)
  next
    case (Cons y zs)
    let ?tail = "join_comma (map JSON_stringify (y # zs)) @ CHR '']'' # rest"
    have "length (JSON_stringify x) \<le> k" using Cons.prems(3) Cons m by simp
    then have v: "parse_value k (JSON_stringify x @ CHR '','' # ?tail) = Some (x, CHR '','' # ?tail)"
      using Cons.prems(1) [of x "CHR '','' # ?tail" k] nn by simp
    have "Suc (length (join_comma (map JSON_stringify (y # zs)))) \<le> k"
      using Cons.prems(3) Cons m by simp
    then have "parse_elements k ?tail = Some (y # zs, rest)"
      using Cons.IH [of k] Cons.prems(1) Cons by simp
    then show ?thesis using Cons v m by (simp add: skip_ws_start)
  qed
qed

lemma parse_members_join:
  assumes "\<And>k x n rest. (k, x) \<in> set ps \<Longrightarrow> rest = [] \<or> \<not> is_number_char (hd rest) \<Longrightarrow>
             length (JSON_stringify x) \<le> n \<Longrightarrow>
             parse_value n (JSON_stringify x @ rest) = Some (x, rest)"
    and "ps \<noteq> []"
    and "Suc (length (join_comma (map (\<lambda>(k, v). quote k @ CHR '':'' # JSON_stringify v) ps))) \<le> m"
  shows "parse_members m
           (join_comma (map (\<lambda>(k, v). quote k @ CHR '':'' # JSON_stringify v) ps) @ CHR ''}'' # rest)
         = Some (ps, rest)"
  using assms
proof (induction ps arbitrary: m)
  case Nil
  then show ?case by simp
next
  case (Cons p qs)
  note IH = Cons.IH and prems = Cons.prems
  obtain key x where p: "p = (key, x)" by (cases p)
  from prems(3) obtain k where m: "m = Suc k" by (cases m) auto
  have nn: "\<not> is_number_char CHR ''}''" "\<not> is_number_char CHR '',''"
    by (simp_all add: is_number_char_def is_digit_iff)
  have key: "parse_chars (concat (map escape_char key) @ CHR 0x22 # CHR '':'' # t)
             = Some (key, CHR '':'' # t)" for t
    by (rule parse_chars_quote)
  show ?case
  proof (cases qs)
    case Nil
    have "length (JSON_stringify x) \<le> k" using prems(3) Nil m p by (simp add: quote_def)
    then have "parse_value k (JSON_stringify x @ CHR ''}'' # rest) = Some (x, CHR ''}'' # rest)"
      using prems(1) [of key x "CHR ''}'' # rest" k] nn p by simp
    then show ?thesis using Nil m p key by (simp add: skip_ws_start quote_def)
  next
    case (Cons q rs)
    let ?tail = "join_comma (map (\<lambda>(k, v). quote k @ CHR '':'' # JSON_stringify v) (q # rs))
                 @ CHR ''}'' # rest"
    have "length (JSON_stringify x) \<le> k" using prems(3) Cons m p by (simp add: quote_def)
    then have v: "parse_value k (JSON_stringify x @ CHR '','' # ?tail) = Some (x, CHR '','' # ?tail)"
      using prems(1) [of key x "CHR '','' # ?tail" k] nn p by simp
    have "Suc (length (join_comma (map (\<lambda>(k, v). quote k @ CHR '':'' # JSON_stringify v) (q # rs))))
          \<le> k"
      using prems(3) Cons m p by (simp add: quote_def)
    moreover have "qs \<noteq> []" using Cons by simp
    ultimately have "parse_members k
        (join_comma (map (\<lambda>(k, v). quote k @ CHR '':'' # JSON_stringify v) qs) @ CHR ''}'' # rest)
        = Some (qs, rest)"
      using prems(1) unfolding Cons [symmetric] by (intro IH) auto
    then show ?thesis using Cons v m p key by (simp add: skip_ws_start quote_def)
  qed
qed

lemma parse_value_stringify:
  "wf_json v \<Longrightarrow> rest = [] \<or> \<not> is_number_char (hd rest) \<Longrightarrow>
   length (JSON_stringify v) \<le> n \<Longrightarrow> parse_value n (JSON_stringify v @ rest) = Some (v, rest)"
proof (induction v arbitrary: n rest)
  case JNull
  then obtain k where "n = Suc k" by (cases n) auto
  then show ?case by (simp add: skip_ws_start strip_prefix_def is_digit_iff)
next
  case (JBool b)
  then obtain k where "n = Suc k" by (cases n; cases b) auto
  then show ?case by (cases b) (simp_all add: skip_ws_start strip_prefix_def is_digit_iff)
next
  case (JNum x)
  from wf_number(3) [OF JNum(1)] JNum(3) obtain k where "n = Suc k" by (cases n) auto
  then show ?case using parse_number [OF JNum(1,2)] by simp
next
  case (JStr s)
  then obtain k where "n = Suc k" by (cases n) (auto simp: quote_def)
  then show ?case by (simp add: skip_ws_start quote_def parse_chars_quote)
next
  case (JArr xs)
  from JArr.prems obtain k where n: "n = Suc k" by (cases n) auto
  show ?case
  proof (cases "xs = []")
    case True
    then show ?thesis using n by (simp add: skip_ws_start)
  next
    case False
    let ?body = "join_comma (map JSON_stringify xs) @ CHR '']'' # rest"
    have w: "list_all wf_json xs" using JArr.prems(1) by simp
    obtain c r where cr: "?body = c # r"
      "c \<in> {CHR ''n'', CHR ''t'', CHR ''f'', CHR 0x22, CHR ''['', CHR ''{'', CHR ''-''} \<or> is_digit c"
      using starts_value_join [OF False w] by blast
    have ws: "skip_ws ?body = c # r" "c \<noteq> CHR '']''"
      using value_start_facts [OF cr(2)] cr(1) by simp_all
    have "Suc (length (join_comma (map JSON_stringify xs))) \<le> k" using JArr.prems n by simp
    moreover have "\<And>x n rest. x \<in> set xs \<Longrightarrow> rest = [] \<or> \<not> is_number_char (hd rest) \<Longrightarrow>
             length (JSON_stringify x) \<le> n \<Longrightarrow>
             parse_value n (JSON_stringify x @ rest) = Some (x, rest)"
      using JArr.IH w by (simp add: list_all_iff)
    ultimately have "parse_elements k ?body = Some (xs, rest)"
      using False by (intro parse_elements_join) auto
    then show ?thesis using n ws by (simp add: skip_ws_start)
  qed
next
  case (JObj ps)
  from JObj.prems obtain k where n: "n = Suc k" by (cases n) auto
  show ?case
  proof (cases "ps = []")
    case True
    then show ?thesis using n by (simp add: skip_ws_start)
  next
    case False
    let ?body = "join_comma (map (\<lambda>(k, v). quote k @ CHR '':'' # JSON_stringify v) ps)
                 @ CHR ''}'' # rest"
    obtain p qs where pq: "ps = p # qs" using False by (cases ps) auto
    obtain r where cr: "?body = CHR 0x22 # r"
      unfolding pq by (cases p; cases qs) (auto simp: quote_def)
    have ws: "skip_ws ?body = CHR 0x22 # r"
      unfolding cr by (simp add: skip_ws_start)
    have w: "properties ps = ps" "list_all (\<lambda>(k, v). wf_json v) ps" using JObj.prems(1) by simp_all
    have "Suc (length (join_comma (map (\<lambda>(k, v). quote k @ CHR '':'' # JSON_stringify v) ps))) \<le> k"
      using JObj.prems n by simp
    moreover have "\<And>k x n rest. (k, x) \<in> set ps \<Longrightarrow> rest = [] \<or> \<not> is_number_char (hd rest) \<Longrightarrow>
             length (JSON_stringify x) \<le> n \<Longrightarrow>
             parse_value n (JSON_stringify x @ rest) = Some (x, rest)"
    proof -
      fix k x n rest
      assume m: "(k, x) \<in> set ps" and r: "rest = [] \<or> \<not> is_number_char (hd rest)"
        and l: "length (JSON_stringify x) \<le> n"
      have "wf_json x" using w(2) m by (auto simp: list_all_iff)
      then show "parse_value n (JSON_stringify x @ rest) = Some (x, rest)"
        using r l by (intro JObj.IH [OF m]) simp_all
    qed
    ultimately have "parse_members k ?body = Some (ps, rest)"
      using False by (intro parse_members_join) auto
    then show ?thesis using n ws w(1) by (simp add: skip_ws_start)
  qed
qed

lemma JSON_parse_stringify: "wf_json v \<Longrightarrow> JSON_parse (JSON_stringify v) = Some v"
  using parse_value_stringify [of v "[]" "length (JSON_stringify v)"]
  by (simp add: JSON_parse_def skip_ws_Nil)


section \<open>The table stays well formed\<close>

text \<open>
  The empty table is well formed, and the statements and the handlers that change the
  table keep it so: every table the operations reach from the empty one is well formed.
\<close>

lemma wf_empty_store: "wf_store empty_store"
  by (simp add: wf_store_def empty_store_def)

lemma insert_user_wf:
  assumes "wf_store st" and "insert_user name email hash phone role skills now st = Some (i, st')"
  shows "wf_store st' \<and> i = next_id st"
proof -
  from assms(2) obtain ph where
    e: "\<not> (\<exists>r \<in> set (rows st). u_email r = email)" and i: "i = next_id st"
    and s: "st' = st\<lparr>rows := rows st @
                      [\<lparr>u_id = next_id st, u_name = name, u_email = email, u_password = hash,
                        u_phone = Some ph, u_role = role, u_skills = Some skills,
                        u_created_at = now, u_updated_at = now\<rparr>],
                    next_id := Suc (next_id st)\<rparr>"
    by (auto simp: insert_user_def list_ex_iff split: option.splits if_splits)
  have b: "\<forall>r \<in> set (rows st). 0 < u_id r \<and> u_id r < next_id st" and p: "0 < next_id st"
    using assms(1) by (simp_all add: wf_store_def list_all_iff)
  have "next_id st \<notin> u_id ` set (rows st)" using b by auto
  moreover have "email \<notin> u_email ` set (rows st)" using e by auto
  ultimately have "wf_store st'"
    unfolding s using assms(1) b p by (auto simp: wf_store_def list_all_iff less_Suc_eq)
  then show ?thesis using i by simp
qed

lemma createUser_wf: "wf_store st \<Longrightarrow> wf_store (snd (createUser L salt now req st))"
  by (auto simp: createUser_def Let_def split: option.splits dest: insert_user_wf)

lemma update_user_Some:
  assumes "update_user name email hash phone role skills now uid st = Some st'"
  shows "\<exists>ph. phone = Some ph \<and> fits_columns name email ph \<and>
           \<not> ((\<exists>r \<in> set (rows st). u_id r = uid) \<and>
              (\<exists>r \<in> set (rows st). u_id r \<noteq> uid \<and> u_email r = email)) \<and>
           st' = st\<lparr>rows :=
                 map (\<lambda>r. if u_id r = uid
                           then on_update now r
                                  (r\<lparr>u_name := name, u_email := email,
                                     u_password :=
                                       (case hash of None \<Rightarrow> u_password r | Some h \<Rightarrow> h),
                                     u_phone := Some ph, u_role := role,
                                     u_skills := Some skills\<rparr>)
                           else r)
                   (rows st)\<rparr>"
  using assms by (auto simp: update_user_def list_ex_iff split: option.splits if_splits)

lemma on_update_id: "u_id r' = u_id r \<Longrightarrow> u_id (on_update now r r') = u_id r"
  by (simp add: on_update_def)

lemma on_update_email: "u_email r' = e \<Longrightarrow> u_email (on_update now r r') = e"
  by (auto simp: on_update_def)

lemma on_update_skills: "u_skills r' = s \<Longrightarrow> u_skills (on_update now r r') = s"
  by (auto simp: on_update_def)

lemma update_user_map:
  assumes "update_user name email hash phone role skills now uid st = Some st'"
  obtains g where "st' = st\<lparr>rows := map g (rows st)\<rparr>" and "\<And>r. u_id (g r) = u_id r"
    and "\<And>r. u_id r \<noteq> uid \<Longrightarrow> g r = r" and "\<And>r. u_id r = uid \<Longrightarrow> u_email (g r) = email"
    and "\<And>r. u_id r = uid \<Longrightarrow> u_skills (g r) = Some skills"
proof -
  from update_user_Some [OF assms] obtain ph where
    s: "st' = st\<lparr>rows :=
                 map (\<lambda>r. if u_id r = uid
                           then on_update now r
                                  (r\<lparr>u_name := name, u_email := email,
                                     u_password :=
                                       (case hash of None \<Rightarrow> u_password r | Some h \<Rightarrow> h),
                                     u_phone := Some ph, u_role := role,
                                     u_skills := Some skills\<rparr>)
                           else r)
                   (rows st)\<rparr>"
    by blast
  show ?thesis
    by (rule that [OF s]) (simp_all add: on_update_id on_update_email on_update_skills)
qed

lemma update_user_wf:
  assumes "wf_store st" and "update_user name email hash phone role skills now uid st = Some st'"
  shows "wf_store st'"
proof -
  from update_user_map [OF assms(2)] obtain g where
    s: "st' = st\<lparr>rows := map g (rows st)\<rparr>" and g: "\<And>r. u_id (g r) = u_id r"
      "\<And>r. u_id r \<noteq> uid \<Longrightarrow> g r = r" "\<And>r. u_id r = uid \<Longrightarrow> u_email (g r) = email"
    by blast
  have u: "\<not> ((\<exists>r \<in> set (rows st). u_id r = uid) \<and>
              (\<exists>r \<in> set (rows st). u_id r \<noteq> uid \<and> u_email r = email))"
    using update_user_Some [OF assms(2)] by blast
  have d: "distinct (rows st)" "inj_on u_id (set (rows st))" "inj_on u_email (set (rows st))"
    using assms(1) by (simp_all add: wf_store_def distinct_map)
  have "inj_on (\<lambda>r. u_email (g r)) (set (rows st))"
  proof (rule inj_onI)
    fix a b
    assume a: "a \<in> set (rows st)" and b: "b \<in> set (rows st)"
      and eq: "u_email (g a) = u_email (g b)"
    consider "u_id a = uid" "u_id b = uid" | "u_id a \<noteq> uid" "u_id b \<noteq> uid"
      | "u_id a = uid" "u_id b \<noteq> uid" | "u_id a \<noteq> uid" "u_id b = uid"
      by blast
    then show "a = b"
    proof cases
      case 1
      then show ?thesis using d(2) a b by (auto dest: inj_onD)
    next
      case 2
      then show ?thesis using d(3) a b eq g(2) by (auto dest: inj_onD)
    next
      case 3
      then have "u_email b = email" using eq g(2,3) by simp
      then show ?thesis using u a b 3 by blast
    next
      case 4
      then have "u_email a = email" using eq g(2,3) by simp
      then show ?thesis using u a b 4 by blast
    qed
  qed
  then have "distinct (map u_email (map g (rows st)))"
    using d(1) by (simp add: distinct_map o_def)
  moreover have "u_id \<circ> g = u_id" by (simp add: fun_eq_iff g(1))
  ultimately show ?thesis
    unfolding s using assms(1) by (simp add: wf_store_def list_all_iff g(1))
qed

lemma updateUser_wf: "wf_store st \<Longrightarrow> wf_store (snd (updateUser L salt now uid req st))"
  by (auto simp: updateUser_def Let_def split: option.splits dest: update_user_wf)

lemma deleteUser_wf: "wf_store st \<Longrightarrow> wf_store (snd (deleteUser uid st))"
  by (simp add: deleteUser_def Let_def wf_store_def list_all_iff distinct_map_filter)


section \<open>Properties of create, fetch and delete\<close>

text \<open>
  C1. A create request that passes the six validation checks and whose email is the
  email of a stored record is answered with status 400 and the message
  \<open>Email already registered\<close>, and the table is unchanged.
\<close>

theorem create_duplicate_email:
  assumes "validateUser L POST req = []"
    and "\<exists>r \<in> set (rows st). u_email r = b_email req"
  shows "createUser L salt now req st = ((400, Message ''Email already registered''), st)"
  using assms by (simp add: createUser_def sanitize_def list_ex_iff)

theorem create_duplicate_email_witness:
  "validateUser sample_lib POST
     \<lparr>b_name = ''Alice'', b_email = ''alice@example.com'', b_password = Some ''Passw0rd!'',
      b_phone = Some ''+1-555-1234'', b_role = ''user'',
      b_skills = Some (JArr [JStr ''React''])\<rparr> = [] \<and>
   createUser sample_lib ''salt'' 100
     \<lparr>b_name = ''Alice'', b_email = ''alice@example.com'', b_password = Some ''Passw0rd!'',
      b_phone = Some ''+1-555-1234'', b_role = ''user'',
      b_skills = Some (JArr [JStr ''React''])\<rparr>
     \<lparr>rows = [\<lparr>u_id = 1, u_name = ''Al'', u_email = ''alice@example.com'', u_password = ''h'',
               u_phone = None, u_role = ''admin'', u_skills = None,
               u_created_at = 7, u_updated_at = 7\<rparr>], next_id = 2\<rparr>
   = ((400, Message ''Email already registered''),
      \<lparr>rows = [\<lparr>u_id = 1, u_name = ''Al'', u_email = ''alice@example.com'', u_password = ''h'',
               u_phone = None, u_role = ''admin'', u_skills = None,
               u_created_at = 7, u_updated_at = 7\<rparr>], next_id = 2\<rparr>)"
proof -
  let ?req = "\<lparr>b_name = ''Alice'', b_email = ''alice@example.com'', b_password = Some ''Passw0rd!'',
      b_phone = Some ''+1-555-1234'', b_role = ''user'',
      b_skills = Some (JArr [JStr ''React''])\<rparr>"
  have v: "validateUser sample_lib POST ?req = []" by code_simp
  show ?thesis
    using v create_duplicate_email [OF v, of _ "''salt''" 100] by simp
qed

lemma filter_other_ids:
  "\<not> (\<exists>r \<in> set rs. u_id r = uid) \<Longrightarrow> filter (\<lambda>r. u_id r \<noteq> uid) rs = rs"
  by (induction rs) auto

lemma filter_id_empty_iff:
  "(filter (\<lambda>r. u_id r = uid) rs = []) \<longleftrightarrow> \<not> (\<exists>r \<in> set rs. u_id r = uid)"
  by (auto simp: filter_empty_conv)

text \<open>
  C9. A delete request either finds a record with the id, removes every row of that id
  and answers 200 with a success message, or finds none, answers 404
  \<open>User not found\<close> and leaves the table unchanged.
\<close>

theorem delete_user:
  "((\<exists>r \<in> set (rows st). u_id r = uid) \<and>
      deleteUser uid st =
        ((200, Message ''User deleted successfully''),
         st\<lparr>rows := filter (\<lambda>r. u_id r \<noteq> uid) (rows st)\<rparr>) \<and>
      \<not> (\<exists>r \<in> set (rows (snd (deleteUser uid st))). u_id r = uid)) \<or>
   (\<not> (\<exists>r \<in> set (rows st). u_id r = uid) \<and>
      deleteUser uid st = ((404, Message ''User not found''), st))"
proof (cases "\<exists>r \<in> set (rows st). u_id r = uid")
  case True
  then have "filter (\<lambda>r. u_id r = uid) (rows st) \<noteq> []"
    by (simp add: filter_id_empty_iff)
  then show ?thesis using True by (simp add: deleteUser_def Let_def)
next
  case False
  then have "filter (\<lambda>r. u_id r = uid) (rows st) = []"
    by (simp add: filter_id_empty_iff)
  then show ?thesis using False by (simp add: deleteUser_def Let_def filter_other_ids)
qed

theorem delete_user_witness:
  "deleteUser 5
     \<lparr>rows = [\<lparr>u_id = 1, u_name = ''Al'', u_email = ''al@example.com'', u_password = ''h'',
               u_phone = None, u_role = ''admin'', u_skills = None,
               u_created_at = 7, u_updated_at = 7\<rparr>], next_id = 2\<rparr>
   = ((404, Message ''User not found''),
      \<lparr>rows = [\<lparr>u_id = 1, u_name = ''Al'', u_email = ''al@example.com'', u_password = ''h'',
               u_phone = None, u_role = ''admin'', u_skills = None,
               u_created_at = 7, u_updated_at = 7\<rparr>], next_id = 2\<rparr>) \<and>
   deleteUser 1
     \<lparr>rows = [\<lparr>u_id = 1, u_name = ''Al'', u_email = ''al@example.com'', u_password = ''h'',
               u_phone = None, u_role = ''admin'', u_skills = None,
               u_created_at = 7, u_updated_at = 7\<rparr>], next_id = 2\<rparr>
   = ((200, Message ''User deleted successfully''), \<lparr>rows = [], next_id = 2\<rparr>)"
  using delete_user [of "\<lparr>rows = [\<lparr>u_id = 1, u_name = ''Al'', u_email = ''al@example.com'',
               u_password = ''h'', u_phone = None, u_role = ''admin'', u_skills = None,
               u_created_at = 7, u_updated_at = 7\<rparr>],
               next_id = 2\<rparr>" 5]
    delete_user [of "\<lparr>rows = [\<lparr>u_id = 1, u_name = ''Al'', u_email = ''al@example.com'',
               u_password = ''h'', u_phone = None, u_role = ''admin'', u_skills = None,
               u_created_at = 7, u_updated_at = 7\<rparr>],
               next_id = 2\<rparr>" 1]
  by simp

text \<open>
  C5, as the code has it. The request with name \<open>Jo\<close>, email \<open>bad\<close>, password \<open>x\<close>,
  role \<open>user\<close> and no skills is rejected with status 400 and these violations: the
  email syntax and four of the password policy (length, uppercase letter, number, special
  character), whenever the library rejects \<open>bad\<close> as an email. The name \<open>Jo\<close> has the
  two characters the check asks for, so no violation of the name is listed.
\<close>

theorem create_scenario_errors:
  assumes "\<not> isEmail L ''bad''"
  shows "createUser L salt now
           \<lparr>b_name = ''Jo'', b_email = ''bad'', b_password = Some ''x'', b_phone = None,
            b_role = ''user'', b_skills = Some (JArr [])\<rparr> st =
         ((400, Errors
            [(''email'', ''Invalid email address''),
             (''password'', ''Password must be at least 8 characters''),
             (''password'', ''Password must contain at least one uppercase letter''),
             (''password'', ''Password must contain at least one number''),
             (''password'', ''Password must contain at least one special character'')]),
          st)"
proof -
  have n: "trim ''Jo'' = ''Jo''" by code_simp
  have p: "passwordValidation ''x'' =
            [(''password'', ''Password must be at least 8 characters''),
             (''password'', ''Password must contain at least one uppercase letter''),
             (''password'', ''Password must contain at least one number''),
             (''password'', ''Password must contain at least one special character'')]"
    by code_simp
  show ?thesis
    using assms by (simp add: createUser_def validateUser_def password_custom_def n p)
qed

theorem create_scenario_errors_witness:
  "\<not> isEmail sample_lib ''bad'' \<and>
   createUser sample_lib ''salt'' 100
     \<lparr>b_name = ''Jo'', b_email = ''bad'', b_password = Some ''x'', b_phone = None,
      b_role = ''user'', b_skills = Some (JArr [])\<rparr> empty_store =
   ((400, Errors
      [(''email'', ''Invalid email address''),
       (''password'', ''Password must be at least 8 characters''),
       (''password'', ''Password must contain at least one uppercase letter''),
       (''password'', ''Password must contain at least one number''),
       (''password'', ''Password must contain at least one special character'')]),
    empty_store)"
proof -
  have e: "\<not> isEmail sample_lib ''bad''" by (simp add: sample_lib_def)
  show ?thesis using e create_scenario_errors [OF e, of "''salt''" 100 empty_store] by simp
qed

text \<open>The violations of that request hold none for the field \<open>name\<close>.\<close>

theorem create_scenario_no_name_error:
  "(case fst (createUser sample_lib ''salt'' 100
       \<lparr>b_name = ''Jo'', b_email = ''bad'', b_password = Some ''x'', b_phone = None,
        b_role = ''user'', b_skills = Some (JArr [])\<rparr> empty_store) of
      (status, Errors errors) \<Rightarrow> status = 400 \<and> ''name'' \<notin> set (map fst errors)
    | _ \<Rightarrow> False)"
  by code_simp

text \<open>
  C7, what the code does. A create request that passes validation and has no \<open>phone\<close>
  never stores a record: unless the email is taken (status 400), the \<open>undefined\<close> bind
  parameter makes the insert fail and the answer is status 500 \<open>Server error\<close>.
\<close>

theorem create_without_phone:
  assumes "validateUser L POST req = []"
    and "b_phone req = None"
  shows "createUser L salt now req st =
           (if \<exists>r \<in> set (rows st). u_email r = b_email req
            then (400, Message ''Email already registered'') else server_error, st)"
  using assms
  by (simp add: createUser_def sanitize_def list_ex_iff insert_user_def Let_def split: option.splits)

theorem create_without_phone_witness:
  "validateUser sample_lib POST
     \<lparr>b_name = ''Alice'', b_email = ''alice@example.com'', b_password = Some ''Passw0rd!'',
      b_phone = None, b_role = ''user'', b_skills = Some (JArr [])\<rparr> = [] \<and>
   createUser sample_lib ''salt'' 100
     \<lparr>b_name = ''Alice'', b_email = ''alice@example.com'', b_password = Some ''Passw0rd!'',
      b_phone = None, b_role = ''user'', b_skills = Some (JArr [])\<rparr> empty_store =
   ((500, Message ''Server error''), empty_store)"
proof -
  let ?req = "\<lparr>b_name = ''Alice'', b_email = ''alice@example.com'',
      b_password = Some ''Passw0rd!'', b_phone = None, b_role = ''user'',
      b_skills = Some (JArr [])\<rparr>"
  have v: "validateUser sample_lib POST ?req = []" by code_simp
  show ?thesis
    using v create_without_phone [OF v, of "''salt''" 100 empty_store]
    by (simp add: empty_store_def server_error_def)
qed

lemma validated_skills:
  "validateUser L m req = [] \<Longrightarrow> \<exists>xs. b_skills req = Some (JArr xs)"
  by (auto simp: validateUser_def split: option.splits json.splits)

lemma skills_or_empty_array: "skills_or_empty (Some (JArr xs)) = JArr xs"
  by (simp add: skills_or_empty_def)

text \<open>When create answers 201, and that it does for a complete request.\<close>

lemma createUser_created:
  assumes "createUser L salt now req st = ((201, body), st')"
  shows "validateUser L POST req = [] \<and>
         (\<exists>pw ph. b_password req = Some pw \<and> b_phone req = Some ph \<and>
            body = Obj ([(''id'', VNum (next_id st)), (''name'', VStr (trim (b_name req))),
                         (''email'', VStr (b_email req)), (''phone'', VStr ph),
                         (''role'', VStr (b_role req))] @
                        property ''skills'' (map_option VJson (b_skills req))) \<and>
            st' = st\<lparr>rows := rows st @
                     [\<lparr>u_id = next_id st, u_name = trim (b_name req), u_email = b_email req,
                       u_password = bcrypt_hash L pw salt, u_phone = Some ph,
                       u_role = b_role req,
                       u_skills = Some (JSON_stringify (skills_or_empty (b_skills req))),
                       u_created_at = now, u_updated_at = now\<rparr>],
                   next_id := Suc (next_id st)\<rparr>)"
  using assms
  by (auto simp: createUser_def sanitize_def Let_def insert_user_def server_error_def property_def
           split: if_splits option.splits)

lemma createUser_rows:
  "snd (createUser L salt now req st) = st \<or>
   (\<exists>body. createUser L salt now req st = ((201, body), snd (createUser L salt now req st)))"
  by (auto simp: createUser_def sanitize_def Let_def insert_user_def
           split: if_splits option.splits)

lemma validated_password:
  "validateUser L POST req = [] \<Longrightarrow> \<exists>pw. b_password req = Some pw"
  by (cases "b_password req")
     (auto simp: validateUser_def password_custom_def passwordValidation_def split: if_splits)

lemma createUser_succeeds:
  assumes "validateUser L POST req = []"
    and "\<not> (\<exists>r \<in> set (rows st). u_email r = b_email req)"
    and "b_phone req = Some ph"
    and "fits_columns (trim (b_name req)) (b_email req) ph"
    and "b_password req = Some pw"
  shows "createUser L salt now req st =
     ((201, Obj ([(''id'', VNum (next_id st)), (''name'', VStr (trim (b_name req))),
                  (''email'', VStr (b_email req)), (''phone'', VStr ph),
                  (''role'', VStr (b_role req))] @
                 property ''skills'' (map_option VJson (b_skills req)))),
      st\<lparr>rows := rows st @
             [\<lparr>u_id = next_id st, u_name = trim (b_name req), u_email = b_email req,
               u_password = bcrypt_hash L pw salt, u_phone = Some ph, u_role = b_role req,
               u_skills = Some (JSON_stringify (skills_or_empty (b_skills req))),
               u_created_at = now, u_updated_at = now\<rparr>],
           next_id := Suc (next_id st)\<rparr>)"
  using assms
  by (simp add: createUser_def sanitize_def Let_def insert_user_def list_ex_iff property_def)

lemma filter_fresh_id:
  "list_all (\<lambda>r. u_id r < n) rs \<Longrightarrow> filter (\<lambda>r. u_id r = n) rs = []"
  by (induction rs) auto

lemma those_None: "None \<in> set xs \<Longrightarrow> those xs = None"
  by (induction xs) (auto split: option.splits)

lemma react_aws_unreadable:
  "read_user (r\<lparr>u_skills := Some (JSON_stringify (JArr [JStr ''React'', JStr ''AWS'']))\<rparr>) = None"
proof -
  have w: "wf_json (JArr [JStr ''React'', JStr ''AWS''])" by simp
  have d: "driver_json (Some (JSON_stringify (JArr [JStr ''React'', JStr ''AWS''])))
           = Some (JArr [JStr ''React'', JStr ''AWS''])"
    unfolding driver_json_def option.case by (rule JSON_parse_stringify [OF w])
  have p: "decode_skills (JArr [JStr ''React'', JStr ''AWS'']) = None"
    by code_simp
  show ?thesis
    unfolding read_user_def by (simp add: d p del: JSON_stringify.simps)
qed

text \<open>
  C4, what the code does. For every create request that passes validation with skills
  \<open>["React","AWS"]\<close>, has a phone, fits the columns and whose email no record has, on a
  well-formed table: create answers 201 with a new id and stores the serialization of
  the array, which the driver reads back as \<open>["React","AWS"]\<close>; the handlers that fetch
  pass that array to \<open>JSON.parse\<close>, which takes it as the text \<open>React,AWS\<close> and throws,
  so fetching the new id, and listing, answer 500 \<open>Server error\<close>. The object that
  the handlers build of a row \<open>r\<close> and its decoded skills \<open>v\<close> has no property
  \<open>password\<close> or \<open>passwordHash\<close>.
\<close>

theorem create_then_get_fails:
  assumes "wf_store st"
    and "validateUser L POST req = []"
    and "\<not> (\<exists>r \<in> set (rows st). u_email r = b_email req)"
    and "b_phone req = Some ph"
    and "fits_columns (trim (b_name req)) (b_email req) ph"
    and "b_skills req = Some (JArr [JStr ''React'', JStr ''AWS''])"
  shows "fst (createUser L salt now req st) =
           (201, Obj [(''id'', VNum (next_id st)), (''name'', VStr (trim (b_name req))),
                      (''email'', VStr (b_email req)), (''phone'', VStr ph),
                      (''role'', VStr (b_role req)),
                      (''skills'', VJson (JArr [JStr ''React'', JStr ''AWS'']))]) \<and>
         map u_skills (filter (\<lambda>r. u_id r = next_id st)
                         (rows (snd (createUser L salt now req st)))) =
           [Some (JSON_stringify (JArr [JStr ''React'', JStr ''AWS'']))] \<and>
         driver_json (Some (JSON_stringify (JArr [JStr ''React'', JStr ''AWS'']))) =
           Some (JArr [JStr ''React'', JStr ''AWS'']) \<and>
         decode_skills (JArr [JStr ''React'', JStr ''AWS'']) = None \<and>
         getUser (next_id st) (snd (createUser L salt now req st)) =
           (500, Message ''Server error'') \<and>
         getUsers (snd (createUser L salt now req st)) = (500, Message ''Server error'') \<and>
         map_of (user_view r v) ''password'' = None \<and>
         map_of (user_view r v) ''passwordHash'' = None"
proof -
  let ?array = "JArr [JStr ''React'', JStr ''AWS'']"
  from validated_password [OF assms(2)] obtain pw where pw: "b_password req = Some pw"
    by blast
  let ?row = "\<lparr>u_id = next_id st, u_name = trim (b_name req), u_email = b_email req,
                u_password = bcrypt_hash L pw salt, u_phone = Some ph, u_role = b_role req,
                u_skills = Some (JSON_stringify (skills_or_empty (b_skills req))),
                u_created_at = now, u_updated_at = now\<rparr>"
  note c = createUser_succeeds [OF assms(2-5) pw, of salt now]
  have fresh: "filter (\<lambda>r. u_id r = next_id st) (rows st) = []"
    using assms(1) by (intro filter_fresh_id) (simp add: wf_store_def list_all_iff)
  have sk: "JSON_stringify (skills_or_empty (b_skills req)) = JSON_stringify ?array"
    unfolding assms(6) skills_or_empty_array ..
  then have "?row = ?row\<lparr>u_skills := Some (JSON_stringify ?array)\<rparr>" by simp
  then have unreadable: "read_user ?row = None"
    using react_aws_unreadable [of ?row] by simp
  have answer: "fst (createUser L salt now req st) =
           (201, Obj [(''id'', VNum (next_id st)), (''name'', VStr (trim (b_name req))),
                      (''email'', VStr (b_email req)), (''phone'', VStr ph),
                      (''role'', VStr (b_role req)), (''skills'', VJson ?array)])"
    unfolding c by (simp add: assms(6) property_def)
  have stored: "map u_skills (filter (\<lambda>r. u_id r = next_id st)
                         (rows (snd (createUser L salt now req st)))) =
           [Some (JSON_stringify ?array)]"
    unfolding c by (simp add: fresh sk del: JSON_stringify.simps)
  have w: "wf_json ?array" by simp
  have driver: "driver_json (Some (JSON_stringify ?array)) = Some ?array"
    unfolding driver_json_def option.case by (rule JSON_parse_stringify [OF w])
  have decode: "decode_skills ?array = None" by code_simp
  have one: "getUser (next_id st) (snd (createUser L salt now req st)) =
               (500, Message ''Server error'')"
    unfolding c getUser_def by (simp add: fresh unreadable server_error_def)
  have "those (map read_user (rows (snd (createUser L salt now req st)))) = None"
    unfolding c by (rule those_None) (simp add: unreadable)
  then have all: "getUsers (snd (createUser L salt now req st)) = (500, Message ''Server error'')"
    by (simp add: getUsers_def server_error_def)
  have hidden: "map_of (user_view r v) ''password'' = None"
    "map_of (user_view r v) ''passwordHash'' = None"
    by (simp_all add: user_view_def)
  show ?thesis using answer stored driver decode one all hidden by blast
qed

theorem create_then_get_fails_witness:
  "createUser sample_lib ''salt'' 100
     \<lparr>b_name = ''Alice'', b_email = ''alice@example.com'', b_password = Some ''Passw0rd!'',
      b_phone = Some ''+1-555-1234'', b_role = ''user'',
      b_skills = Some (JArr [JStr ''React'', JStr ''AWS''])\<rparr>
     \<lparr>rows = [\<lparr>u_id = 1, u_name = ''Bob'', u_email = ''bob@example.com'',
               u_password = ''h2'', u_phone = Some ''555 0000'', u_role = ''admin'',
               u_skills = Some ''[]'', u_created_at = 10, u_updated_at = 10\<rparr>],
      next_id = 2\<rparr> =
   ((201, Obj [(''id'', VNum 2), (''name'', VStr ''Alice''),
               (''email'', VStr ''alice@example.com''), (''phone'', VStr ''+1-555-1234''),
               (''role'', VStr ''user''),
               (''skills'', VJson (JArr [JStr ''React'', JStr ''AWS'']))]),
    \<lparr>rows = [\<lparr>u_id = 1, u_name = ''Bob'', u_email = ''bob@example.com'',
              u_password = ''h2'', u_phone = Some ''555 0000'', u_role = ''admin'',
              u_skills = Some ''[]'', u_created_at = 10, u_updated_at = 10\<rparr>,
             \<lparr>u_id = 2, u_name = ''Alice'', u_email = ''alice@example.com'',
              u_password = ''saltPassw0rd!'', u_phone = Some ''+1-555-1234'', u_role = ''user'',
              u_skills = Some (JSON_stringify (JArr [JStr ''React'', JStr ''AWS''])),
              u_created_at = 100, u_updated_at = 100\<rparr>],
     next_id = 3\<rparr>) \<and>
   getUser 2
     \<lparr>rows = [\<lparr>u_id = 1, u_name = ''Bob'', u_email = ''bob@example.com'',
              u_password = ''h2'', u_phone = Some ''555 0000'', u_role = ''admin'',
              u_skills = Some ''[]'', u_created_at = 10, u_updated_at = 10\<rparr>,
             \<lparr>u_id = 2, u_name = ''Alice'', u_email = ''alice@example.com'',
              u_password = ''saltPassw0rd!'', u_phone = Some ''+1-555-1234'', u_role = ''user'',
              u_skills = Some (JSON_stringify (JArr [JStr ''React'', JStr ''AWS''])),
              u_created_at = 100, u_updated_at = 100\<rparr>],
      next_id = 3\<rparr> = (500, Message ''Server error'') \<and>
   getUsers
     \<lparr>rows = [\<lparr>u_id = 1, u_name = ''Bob'', u_email = ''bob@example.com'',
              u_password = ''h2'', u_phone = Some ''555 0000'', u_role = ''admin'',
              u_skills = Some ''[]'', u_created_at = 10, u_updated_at = 10\<rparr>,
             \<lparr>u_id = 2, u_name = ''Alice'', u_email = ''alice@example.com'',
              u_password = ''saltPassw0rd!'', u_phone = Some ''+1-555-1234'', u_role = ''user'',
              u_skills = Some (JSON_stringify (JArr [JStr ''React'', JStr ''AWS''])),
              u_created_at = 100, u_updated_at = 100\<rparr>],
      next_id = 3\<rparr> = (500, Message ''Server error'')"
proof -
  let ?req = "\<lparr>b_name = ''Alice'', b_email = ''alice@example.com'',
      b_password = Some ''Passw0rd!'', b_phone = Some ''+1-555-1234'', b_role = ''user'',
      b_skills = Some (JArr [JStr ''React'', JStr ''AWS''])\<rparr>"
  let ?st = "\<lparr>rows = [\<lparr>u_id = 1, u_name = ''Bob'', u_email = ''bob@example.com'',
               u_password = ''h2'', u_phone = Some ''555 0000'', u_role = ''admin'',
               u_skills = Some ''[]'', u_created_at = 10, u_updated_at = 10\<rparr>],
      next_id = 2\<rparr>"
  let ?st' = "\<lparr>rows = [\<lparr>u_id = 1, u_name = ''Bob'', u_email = ''bob@example.com'',
              u_password = ''h2'', u_phone = Some ''555 0000'', u_role = ''admin'',
              u_skills = Some ''[]'', u_created_at = 10, u_updated_at = 10\<rparr>,
             \<lparr>u_id = 2, u_name = ''Alice'', u_email = ''alice@example.com'',
              u_password = ''saltPassw0rd!'', u_phone = Some ''+1-555-1234'', u_role = ''user'',
              u_skills = Some (JSON_stringify (JArr [JStr ''React'', JStr ''AWS''])),
              u_created_at = 100, u_updated_at = 100\<rparr>],
     next_id = 3\<rparr>"
  have w: "wf_store ?st" by code_simp
  have v: "validateUser sample_lib POST ?req = []" by code_simp
  have e: "\<not> (\<exists>r \<in> set (rows ?st). u_email r = b_email ?req)" by simp
  have p: "b_phone ?req = Some ''+1-555-1234''" by simp
  have f: "fits_columns (trim (b_name ?req)) (b_email ?req) ''+1-555-1234''" by code_simp
  have s: "b_skills ?req = Some (JArr [JStr ''React'', JStr ''AWS''])" by simp
  have t: "trim ''Alice'' = ''Alice''" by code_simp
  have st': "snd (createUser sample_lib ''salt'' 100 ?req ?st) = ?st'" by code_simp
  note c = create_then_get_fails [OF w v e p f s, of "''salt''" 100, unfolded st']
  have "fst (createUser sample_lib ''salt'' 100 ?req ?st) =
          (201, Obj [(''id'', VNum 2), (''name'', VStr ''Alice''),
               (''email'', VStr ''alice@example.com''), (''phone'', VStr ''+1-555-1234''),
               (''role'', VStr ''user''),
               (''skills'', VJson (JArr [JStr ''React'', JStr ''AWS'']))])"
    using c by (simp add: t del: JSON_stringify.simps)
  then have created: "createUser sample_lib ''salt'' 100 ?req ?st =
          ((201, Obj [(''id'', VNum 2), (''name'', VStr ''Alice''),
               (''email'', VStr ''alice@example.com''), (''phone'', VStr ''+1-555-1234''),
               (''role'', VStr ''user''),
               (''skills'', VJson (JArr [JStr ''React'', JStr ''AWS'']))]), ?st')"
    using st' by (metis prod.collapse)
  have "getUser 2 ?st' = (500, Message ''Server error'') \<and>
        getUsers ?st' = (500, Message ''Server error'')"
    using c by (simp del: JSON_stringify.simps)
  with created show ?thesis by (simp del: JSON_stringify.simps)
qed


section \<open>Properties of update\<close>

text \<open>
  After validation the handler has four outcomes, in this order: no row of the id, the
  email owned by a row of another id, the \<open>UPDATE\<close> statement rejected, the statement
  applied.
\<close>

lemma updateUser_valid:
  assumes "validateUser L PUT req = []"
  shows "updateUser L salt now uid req st =
     (if \<not> (\<exists>r \<in> set (rows st). u_id r = uid) then ((404, Message ''User not found''), st)
      else if b_email req \<noteq> [] \<and> (\<exists>r \<in> set (rows st). u_id r \<noteq> uid \<and> u_email r = b_email req)
        then ((400, Message ''Email already in use by another account''), st)
      else
        (case update_user (trim (b_name req)) (b_email req)
                (case b_password req of
                   None \<Rightarrow> None
                 | Some password \<Rightarrow>
                     if password \<noteq> [] \<and> trim password \<noteq> []
                     then Some (bcrypt_hash L password salt) else None)
                (b_phone req) (b_role req) (JSON_stringify (skills_or_empty (b_skills req)))
                now uid st of
           None \<Rightarrow> (server_error, st)
         | Some st' \<Rightarrow> ((200, Message ''User updated successfully''), st')))"
proof -
  have c: "list_ex (\<lambda>r. u_email r = b_email req \<and> u_id r \<noteq> uid) (rows st) \<longleftrightarrow>
        (\<exists>r \<in> set (rows st). u_id r \<noteq> uid \<and> u_email r = b_email req)"
    unfolding list_ex_iff by blast
  have e: "list_ex (\<lambda>r. u_id r = uid) (rows st) \<longleftrightarrow> (\<exists>r \<in> set (rows st). u_id r = uid)"
    by (simp add: list_ex_iff)
  have s: "b_name (sanitize req) = trim (b_name req)" "b_email (sanitize req) = b_email req"
    "b_password (sanitize req) = b_password req" "b_phone (sanitize req) = b_phone req"
    "b_role (sanitize req) = b_role req" "b_skills (sanitize req) = b_skills req"
    by (simp_all add: sanitize_def)
  show ?thesis
    unfolding updateUser_def Let_def s c e using assms by simp
qed

lemma validated_email: "validateUser L m req = [] \<Longrightarrow> isEmail L (b_email req)"
  by (auto simp: validateUser_def split: if_splits)

lemma update_user_applied:
  assumes "fits_columns name email ph"
    and "\<not> (\<exists>r \<in> set (rows st). u_id r \<noteq> uid \<and> u_email r = email)"
  shows "update_user name email hash (Some ph) role skills now uid st =
           Some (st\<lparr>rows :=
                 map (\<lambda>r. if u_id r = uid
                           then on_update now r
                                  (r\<lparr>u_name := name, u_email := email,
                                     u_password :=
                                       (case hash of None \<Rightarrow> u_password r | Some h \<Rightarrow> h),
                                     u_phone := Some ph, u_role := role,
                                     u_skills := Some skills\<rparr>)
                           else r)
                   (rows st)\<rparr>)"
  using assms by (simp add: update_user_def list_ex_iff)

lemma trim_Nil: "trim [] = []"
  by (simp add: trim_def)

lemma own_email_unique:
  assumes "wf_store st" and "r \<in> set (rows st)" and "u_id r = uid" and "u_email r = e"
  shows "\<not> (\<exists>r' \<in> set (rows st). u_id r' \<noteq> uid \<and> u_email r' = e)"
proof
  assume "\<exists>r' \<in> set (rows st). u_id r' \<noteq> uid \<and> u_email r' = e"
  then obtain r' where r': "r' \<in> set (rows st)" "u_id r' \<noteq> uid" "u_email r' = e" by blast
  have "inj_on u_email (set (rows st))"
    using assms(1) by (simp add: wf_store_def distinct_map)
  then have "r' = r" using r' assms by (auto dest: inj_onD)
  then show False using r' assms by simp
qed

lemma updateUser_applied:
  assumes v: "validateUser L PUT req = []"
    and ex: "\<exists>r \<in> set (rows st). u_id r = uid"
    and nc: "\<not> (\<exists>r \<in> set (rows st). u_id r \<noteq> uid \<and> u_email r = b_email req)"
    and ph: "b_phone req = Some ph"
    and fit: "fits_columns (trim (b_name req)) (b_email req) ph"
  shows "updateUser L salt now uid req st =
     ((200, Message ''User updated successfully''),
      st\<lparr>rows := map (\<lambda>r. if u_id r = uid
               then on_update now r
                      (r\<lparr>u_name := trim (b_name req), u_email := b_email req,
                         u_password :=
                           (case b_password req of
                              None \<Rightarrow> u_password r
                            | Some p \<Rightarrow>
                                if trim p \<noteq> [] then bcrypt_hash L p salt else u_password r),
                         u_phone := Some ph, u_role := b_role req,
                         u_skills := Some (JSON_stringify (skills_or_empty (b_skills req)))\<rparr>)
               else r) (rows st)\<rparr>)"
proof -
  have h: "(case (case b_password req of
                   None \<Rightarrow> None
                 | Some password \<Rightarrow>
                     if password \<noteq> [] \<and> trim password \<noteq> []
                     then Some (bcrypt_hash L password salt) else None) of
              None \<Rightarrow> u_password r | Some h \<Rightarrow> h) =
           (case b_password req of
              None \<Rightarrow> u_password r
            | Some p \<Rightarrow> if trim p \<noteq> [] then bcrypt_hash L p salt else u_password r)" for r
    by (auto simp: trim_Nil split: option.splits)
  show ?thesis
    unfolding updateUser_valid [OF v] ph update_user_applied [OF fit nc] h
    using ex nc by simp
qed
lemma map_keeps_ids:
  assumes "\<And>r. u_id (g r) = u_id r"
  shows "(\<exists>r \<in> set (map g rs). u_id r = uid) \<longleftrightarrow> (\<exists>r \<in> set rs. u_id r = uid)"
  by (induction rs) (simp_all add: assms)

lemma map_keeps_others:
  assumes "\<And>r. u_id (g r) = u_id r" and "\<And>r. u_id r \<noteq> uid \<Longrightarrow> g r = r"
  shows "(\<exists>r \<in> set (map g rs). u_id r \<noteq> uid \<and> u_email r = e) \<longleftrightarrow>
         (\<exists>r \<in> set rs. u_id r \<noteq> uid \<and> u_email r = e)"
proof (induction rs)
  case Nil
  then show ?case by simp
next
  case (Cons r rs)
  have "u_id (g r) \<noteq> uid \<and> u_email (g r) = e \<longleftrightarrow> u_id r \<noteq> uid \<and> u_email r = e"
    using assms [of r] by auto
  then show ?case using Cons by simp
qed

lemma update_user_ids:
  assumes "update_user name email hash phone role skills now uid st = Some st'"
  shows "((\<exists>r \<in> set (rows st'). u_id r = uid) \<longleftrightarrow> (\<exists>r \<in> set (rows st). u_id r = uid)) \<and>
         ((\<exists>r \<in> set (rows st'). u_id r \<noteq> uid \<and> u_email r = e) \<longleftrightarrow>
          (\<exists>r \<in> set (rows st). u_id r \<noteq> uid \<and> u_email r = e))"
proof -
  from update_user_map [OF assms] obtain g where
    s: "st' = st\<lparr>rows := map g (rows st)\<rparr>" and g: "\<And>r. u_id (g r) = u_id r"
      "\<And>r. u_id r \<noteq> uid \<Longrightarrow> g r = r"
    by blast
  show ?thesis
    unfolding s using map_keeps_ids [of g "rows st" uid, OF g(1)]
      map_keeps_others [of g uid "rows st" e, OF g] by simp
qed

text \<open>The row that a statement has written, and the same statement run on it again.\<close>

lemma on_update_columns:
  "u_name (on_update now r r') = u_name r'" "u_password (on_update now r r') = u_password r'"
  "u_phone (on_update now r r') = u_phone r'" "u_role (on_update now r r') = u_role r'"
  by (auto simp: on_update_def)

lemma set_again:
  assumes "u_name r = name" and "u_email r = email" and "u_phone r = Some ph"
    and "u_role r = role" and "u_skills r = Some skills"
  shows "r\<lparr>u_name := name, u_email := email, u_password := h, u_phone := Some ph,
           u_role := role, u_skills := Some skills\<rparr> = r\<lparr>u_password := h\<rparr>"
  using assms by (cases r) simp

lemma update_user_written:
  assumes "update_user name email hash phone role skills now uid st = Some st'"
    and "r \<in> set (rows st')" and "u_id r = uid"
  shows "u_name r = name \<and> u_email r = email \<and> u_phone r = phone \<and> u_role r = role \<and>
         u_skills r = Some skills \<and> (\<forall>h. hash = Some h \<longrightarrow> u_password r = h)"
proof -
  from update_user_Some [OF assms(1)] obtain ph where p: "phone = Some ph"
    and s: "st' = st\<lparr>rows :=
                 map (\<lambda>r. if u_id r = uid
                           then on_update now r
                                  (r\<lparr>u_name := name, u_email := email,
                                     u_password :=
                                       (case hash of None \<Rightarrow> u_password r | Some h \<Rightarrow> h),
                                     u_phone := Some ph, u_role := role,
                                     u_skills := Some skills\<rparr>)
                           else r)
                   (rows st)\<rparr>"
    by blast
  from assms(2) obtain r0 where r0: "r0 \<in> set (rows st)"
    and r: "r = (if u_id r0 = uid
                 then on_update now r0
                        (r0\<lparr>u_name := name, u_email := email,
                            u_password := (case hash of None \<Rightarrow> u_password r0 | Some h \<Rightarrow> h),
                            u_phone := Some ph, u_role := role, u_skills := Some skills\<rparr>)
                 else r0)"
    unfolding s by auto
  have "u_id r0 = uid" using assms(3) r by (auto simp: on_update_id split: if_splits)
  then have "r = on_update now r0
                   (r0\<lparr>u_name := name, u_email := email,
                       u_password := (case hash of None \<Rightarrow> u_password r0 | Some h \<Rightarrow> h),
                       u_phone := Some ph, u_role := role, u_skills := Some skills\<rparr>)"
    using r by simp
  then show ?thesis
    by (simp add: on_update_columns on_update_email on_update_skills p)
qed

lemma update_user_again:
  assumes "update_user name email hash phone role skills t1 uid st = Some st'"
  shows "update_user name email hash' phone role skills t2 uid st' =
           Some (st'\<lparr>rows :=
             map (\<lambda>r. if u_id r = uid
                       then on_update t2 r
                              (r\<lparr>u_password := (case hash' of None \<Rightarrow> u_password r | Some h \<Rightarrow> h)\<rparr>)
                       else r) (rows st')\<rparr>)"
proof -
  from update_user_Some [OF assms] obtain ph where
    p: "phone = Some ph" "fits_columns name email ph"
       "\<not> ((\<exists>r \<in> set (rows st). u_id r = uid) \<and>
           (\<exists>r \<in> set (rows st). u_id r \<noteq> uid \<and> u_email r = email))"
    by blast
  have "\<not> ((\<exists>r \<in> set (rows st'). u_id r = uid) \<and>
           (\<exists>r \<in> set (rows st'). u_id r \<noteq> uid \<and> u_email r = email))"
    using p(3) update_user_ids [OF assms] by simp
  then have u: "update_user name email hash' phone role skills t2 uid st' =
      Some (st'\<lparr>rows :=
                 map (\<lambda>r. if u_id r = uid
                           then on_update t2 r
                                  (r\<lparr>u_name := name, u_email := email,
                                     u_password :=
                                       (case hash' of None \<Rightarrow> u_password r | Some h \<Rightarrow> h),
                                     u_phone := Some ph, u_role := role,
                                     u_skills := Some skills\<rparr>)
                           else r)
                   (rows st')\<rparr>)"
    using p(1,2) by (simp add: update_user_def list_ex_iff)
  have same: "(if u_id r = uid
               then on_update t2 r
                      (r\<lparr>u_name := name, u_email := email,
                         u_password := (case hash' of None \<Rightarrow> u_password r | Some h \<Rightarrow> h),
                         u_phone := Some ph, u_role := role, u_skills := Some skills\<rparr>)
               else r) =
              (if u_id r = uid
               then on_update t2 r
                      (r\<lparr>u_password := (case hash' of None \<Rightarrow> u_password r | Some h \<Rightarrow> h)\<rparr>)
               else r)" if "r \<in> set (rows st')" for r
  proof (cases "u_id r = uid")
    case True
    from update_user_written [OF assms that True]
    have "u_name r = name" "u_email r = email" "u_phone r = Some ph" "u_role r = role"
      "u_skills r = Some skills"
      by (simp_all add: p(1))
    then show ?thesis by (simp only: set_again)
  next
    case False
    then show ?thesis by simp
  qed
  have m: "map (\<lambda>r. if u_id r = uid
                     then on_update t2 r
                            (r\<lparr>u_name := name, u_email := email,
                               u_password := (case hash' of None \<Rightarrow> u_password r | Some h \<Rightarrow> h),
                               u_phone := Some ph, u_role := role, u_skills := Some skills\<rparr>)
                     else r) (rows st') =
           map (\<lambda>r. if u_id r = uid
                     then on_update t2 r
                            (r\<lparr>u_password := (case hash' of None \<Rightarrow> u_password r | Some h \<Rightarrow> h)\<rparr>)
                     else r) (rows st')"
    by (rule map_cong [OF refl]) (rule same)
  show ?thesis unfolding u m ..
qed

lemma on_update_password:
  "on_update now r (r\<lparr>u_password := h\<rparr>) =
     (if u_password r \<noteq> h then r\<lparr>u_password := h, u_updated_at := now\<rparr> else r)"
  by (cases r) (simp add: on_update_def)

lemma updateUser_invalid:
  "validateUser L PUT req \<noteq> [] \<Longrightarrow>
   updateUser L salt now uid req st = ((400, Errors (validateUser L PUT req)), st)"
  by (simp add: updateUser_def Let_def)

lemma updateUser_branches:
  fixes L salt now uid req st
  defines "found \<equiv> \<exists>r \<in> set (rows st). u_id r = uid"
  defines "taken \<equiv> b_email req \<noteq> [] \<and>
                     (\<exists>r \<in> set (rows st). u_id r \<noteq> uid \<and> u_email r = b_email req)"
  defines "statement \<equiv> update_user (trim (b_name req)) (b_email req)
                (case b_password req of
                   None \<Rightarrow> None
                 | Some password \<Rightarrow>
                     if password \<noteq> [] \<and> trim password \<noteq> []
                     then Some (bcrypt_hash L password salt) else None)
                (b_phone req) (b_role req) (JSON_stringify (skills_or_empty (b_skills req)))
                now uid st"
  assumes "validateUser L PUT req = []"
  shows "\<not> found \<Longrightarrow> updateUser L salt now uid req st = ((404, Message ''User not found''), st)"
    and "found \<Longrightarrow> taken \<Longrightarrow>
         updateUser L salt now uid req st =
           ((400, Message ''Email already in use by another account''), st)"
    and "found \<Longrightarrow> \<not> taken \<Longrightarrow> statement = None \<Longrightarrow>
         updateUser L salt now uid req st = (server_error, st)"
    and "found \<Longrightarrow> \<not> taken \<Longrightarrow> statement = Some st' \<Longrightarrow>
         updateUser L salt now uid req st = ((200, Message ''User updated successfully''), st')"
proof -
  have u: "updateUser L salt now uid req st =
     (if \<not> found then ((404, Message ''User not found''), st)
      else if taken then ((400, Message ''Email already in use by another account''), st)
      else (case statement of
           None \<Rightarrow> (server_error, st)
         | Some st' \<Rightarrow> ((200, Message ''User updated successfully''), st')))"
    unfolding found_def taken_def statement_def by (rule updateUser_valid [OF assms(4)])
  show "\<not> found \<Longrightarrow> updateUser L salt now uid req st = ((404, Message ''User not found''), st)"
    unfolding u by simp
  show "found \<Longrightarrow> taken \<Longrightarrow>
         updateUser L salt now uid req st =
           ((400, Message ''Email already in use by another account''), st)"
    unfolding u by simp
  show "found \<Longrightarrow> \<not> taken \<Longrightarrow> statement = None \<Longrightarrow>
         updateUser L salt now uid req st = (server_error, st)"
    unfolding u by simp
  show "found \<Longrightarrow> \<not> taken \<Longrightarrow> statement = Some st' \<Longrightarrow>
         updateUser L salt now uid req st = ((200, Message ''User updated successfully''), st')"
    unfolding u by simp
qed

text \<open>
  C8, as the code has it. For an update request that passes validation (the library
  rejecting the empty string as an email): with no record of the id the answer is 404
  and nothing changes; otherwise the answer is the email conflict, with nothing changed,
  exactly when a record of another id owns the email, so never for the record's own email
  in a well-formed table; otherwise, when the request has a phone and name, email and
  phone fit their columns, the update is applied and the answer is the success message; an applied update that changes a
  column of the record also sets \<open>updated_at\<close>.
\<close>

theorem update_sequence:
  assumes "validateUser L PUT req = []" and "\<not> isEmail L []"
  shows
    "(\<not> (\<exists>r \<in> set (rows st). u_id r = uid) \<longrightarrow>
        updateUser L salt now uid req st = ((404, Message ''User not found''), st)) \<and>
     ((\<exists>r \<in> set (rows st). u_id r = uid) \<longrightarrow>
        (fst (updateUser L salt now uid req st) =
           (400, Message ''Email already in use by another account'') \<longleftrightarrow>
         (\<exists>r \<in> set (rows st). u_id r \<noteq> uid \<and> u_email r = b_email req)) \<and>
        ((\<exists>r \<in> set (rows st). u_id r \<noteq> uid \<and> u_email r = b_email req) \<longrightarrow>
           snd (updateUser L salt now uid req st) = st) \<and>
        (wf_store st \<and> (\<exists>r \<in> set (rows st). u_id r = uid \<and> u_email r = b_email req) \<longrightarrow>
           fst (updateUser L salt now uid req st) \<noteq>
             (400, Message ''Email already in use by another account'')) \<and>
        (\<forall>ph. \<not> (\<exists>r \<in> set (rows st). u_id r \<noteq> uid \<and> u_email r = b_email req) \<and>
              b_phone req = Some ph \<and> fits_columns (trim (b_name req)) (b_email req) ph \<longrightarrow>
           updateUser L salt now uid req st =
             ((200, Message ''User updated successfully''),
              st\<lparr>rows := map (\<lambda>r. if u_id r = uid
                 then on_update now r
                        (r\<lparr>u_name := trim (b_name req), u_email := b_email req,
                           u_password :=
                             (case b_password req of
                                None \<Rightarrow> u_password r
                              | Some p \<Rightarrow>
                                  if trim p \<noteq> [] then bcrypt_hash L p salt else u_password r),
                           u_phone := Some ph, u_role := b_role req,
                           u_skills :=
                             Some (JSON_stringify (skills_or_empty (b_skills req)))\<rparr>)
                 else r) (rows st)\<rparr>)))"
proof -
  note u = updateUser_valid [OF assms(1), of salt now uid st]
  have ne: "b_email req \<noteq> []" using validated_email [OF assms(1)] assms(2) by auto
  have nf: "\<not> (\<exists>r \<in> set (rows st). u_id r = uid) \<Longrightarrow>
        updateUser L salt now uid req st = ((404, Message ''User not found''), st)"
    unfolding u by simp
  have cf: "(\<exists>r \<in> set (rows st). u_id r = uid) \<Longrightarrow>
        (\<exists>r \<in> set (rows st). u_id r \<noteq> uid \<and> u_email r = b_email req) \<Longrightarrow>
        updateUser L salt now uid req st =
          ((400, Message ''Email already in use by another account''), st)"
    unfolding u using ne by simp
  have ncf: "(\<exists>r \<in> set (rows st). u_id r = uid) \<Longrightarrow>
        \<not> (\<exists>r \<in> set (rows st). u_id r \<noteq> uid \<and> u_email r = b_email req) \<Longrightarrow>
        fst (updateUser L salt now uid req st) \<noteq>
          (400, Message ''Email already in use by another account'')"
    unfolding u by (simp add: server_error_def split: option.splits)
  have own: "wf_store st \<Longrightarrow> (\<exists>r \<in> set (rows st). u_id r = uid \<and> u_email r = b_email req) \<Longrightarrow>
        \<not> (\<exists>r \<in> set (rows st). u_id r \<noteq> uid \<and> u_email r = b_email req)"
    using own_email_unique [of st _ uid "b_email req"] by blast
  have ap: "(\<exists>r \<in> set (rows st). u_id r = uid) \<Longrightarrow>
        \<not> (\<exists>r \<in> set (rows st). u_id r \<noteq> uid \<and> u_email r = b_email req) \<Longrightarrow>
        b_phone req = Some ph \<Longrightarrow> fits_columns (trim (b_name req)) (b_email req) ph \<Longrightarrow>
        updateUser L salt now uid req st =
             ((200, Message ''User updated successfully''),
              st\<lparr>rows := map (\<lambda>r. if u_id r = uid
                 then on_update now r
                        (r\<lparr>u_name := trim (b_name req), u_email := b_email req,
                           u_password :=
                             (case b_password req of
                                None \<Rightarrow> u_password r
                              | Some p \<Rightarrow>
                                  if trim p \<noteq> [] then bcrypt_hash L p salt else u_password r),
                           u_phone := Some ph, u_role := b_role req,
                           u_skills :=
                             Some (JSON_stringify (skills_or_empty (b_skills req)))\<rparr>)
                 else r) (rows st)\<rparr>)" for ph
    by (rule updateUser_applied [OF assms(1)])
  show ?thesis
  proof (intro conjI impI allI)
    assume "\<not> (\<exists>r \<in> set (rows st). u_id r = uid)"
    then show "updateUser L salt now uid req st = ((404, Message ''User not found''), st)"
      by (rule nf)
  next
    assume ex: "\<exists>r \<in> set (rows st). u_id r = uid"
    show "fst (updateUser L salt now uid req st) =
            (400, Message ''Email already in use by another account'') \<longleftrightarrow>
          (\<exists>r \<in> set (rows st). u_id r \<noteq> uid \<and> u_email r = b_email req)"
      using cf [OF ex] ncf [OF ex] by (metis fst_conv)
  next
    assume "\<exists>r \<in> set (rows st). u_id r = uid"
      and "\<exists>r \<in> set (rows st). u_id r \<noteq> uid \<and> u_email r = b_email req"
    then show "snd (updateUser L salt now uid req st) = st" using cf by simp
  next
    assume ex: "\<exists>r \<in> set (rows st). u_id r = uid"
      and "wf_store st \<and> (\<exists>r \<in> set (rows st). u_id r = uid \<and> u_email r = b_email req)"
    then show "fst (updateUser L salt now uid req st) \<noteq>
                 (400, Message ''Email already in use by another account'')"
      using own ncf [OF ex] by blast
  next
    fix ph
    assume "\<exists>r \<in> set (rows st). u_id r = uid"
      and "\<not> (\<exists>r \<in> set (rows st). u_id r \<noteq> uid \<and> u_email r = b_email req) \<and>
           b_phone req = Some ph \<and> fits_columns (trim (b_name req)) (b_email req) ph"
    then show "updateUser L salt now uid req st =
             ((200, Message ''User updated successfully''),
              st\<lparr>rows := map (\<lambda>r. if u_id r = uid
                 then on_update now r
                        (r\<lparr>u_name := trim (b_name req), u_email := b_email req,
                           u_password :=
                             (case b_password req of
                                None \<Rightarrow> u_password r
                              | Some p \<Rightarrow>
                                  if trim p \<noteq> [] then bcrypt_hash L p salt else u_password r),
                           u_phone := Some ph, u_role := b_role req,
                           u_skills :=
                             Some (JSON_stringify (skills_or_empty (b_skills req)))\<rparr>)
                 else r) (rows st)\<rparr>)"
      using ap by blast
  qed
qed

theorem update_sequence_witness:
  "updateUser sample_lib ''s'' 200 3
     \<lparr>b_name = ''Alice'', b_email = ''alice@example.com'', b_password = None,
      b_phone = Some ''+1-555-1234'', b_role = ''user'', b_skills = Some (JArr [])\<rparr>
     \<lparr>rows = [\<lparr>u_id = 1, u_name = ''Alice'', u_email = ''alice@example.com'',
               u_password = ''h1'', u_phone = Some ''+1-555-1234'', u_role = ''user'',
               u_skills = Some ''[]'',
               u_created_at = 10, u_updated_at = 10\<rparr>,
              \<lparr>u_id = 2, u_name = ''Bob'', u_email = ''bob@example.com'',
               u_password = ''h2'', u_phone = Some ''555 0000'', u_role = ''admin'',
               u_skills = Some ''[]'',
               u_created_at = 10, u_updated_at = 10\<rparr>], next_id = 3\<rparr> =
   ((404, Message ''User not found''),
     \<lparr>rows = [\<lparr>u_id = 1, u_name = ''Alice'', u_email = ''alice@example.com'',
               u_password = ''h1'', u_phone = Some ''+1-555-1234'', u_role = ''user'',
               u_skills = Some ''[]'',
               u_created_at = 10, u_updated_at = 10\<rparr>,
              \<lparr>u_id = 2, u_name = ''Bob'', u_email = ''bob@example.com'',
               u_password = ''h2'', u_phone = Some ''555 0000'', u_role = ''admin'',
               u_skills = Some ''[]'',
               u_created_at = 10, u_updated_at = 10\<rparr>], next_id = 3\<rparr>) \<and>
   updateUser sample_lib ''s'' 200 2
     \<lparr>b_name = ''Alice'', b_email = ''alice@example.com'', b_password = None,
      b_phone = Some ''+1-555-1234'', b_role = ''user'', b_skills = Some (JArr [])\<rparr>
     \<lparr>rows = [\<lparr>u_id = 1, u_name = ''Alice'', u_email = ''alice@example.com'',
               u_password = ''h1'', u_phone = Some ''+1-555-1234'', u_role = ''user'',
               u_skills = Some ''[]'',
               u_created_at = 10, u_updated_at = 10\<rparr>,
              \<lparr>u_id = 2, u_name = ''Bob'', u_email = ''bob@example.com'',
               u_password = ''h2'', u_phone = Some ''555 0000'', u_role = ''admin'',
               u_skills = Some ''[]'',
               u_created_at = 10, u_updated_at = 10\<rparr>], next_id = 3\<rparr> =
   ((400, Message ''Email already in use by another account''),
     \<lparr>rows = [\<lparr>u_id = 1, u_name = ''Alice'', u_email = ''alice@example.com'',
               u_password = ''h1'', u_phone = Some ''+1-555-1234'', u_role = ''user'',
               u_skills = Some ''[]'',
               u_created_at = 10, u_updated_at = 10\<rparr>,
              \<lparr>u_id = 2, u_name = ''Bob'', u_email = ''bob@example.com'',
               u_password = ''h2'', u_phone = Some ''555 0000'', u_role = ''admin'',
               u_skills = Some ''[]'',
               u_created_at = 10, u_updated_at = 10\<rparr>], next_id = 3\<rparr>) \<and>
   updateUser sample_lib ''s'' 200 1
     \<lparr>b_name = ''Alice'', b_email = ''alice@example.com'', b_password = None,
      b_phone = Some ''+1-555-1234'', b_role = ''user'', b_skills = Some (JArr [])\<rparr>
     \<lparr>rows = [\<lparr>u_id = 1, u_name = ''Alice'', u_email = ''alice@example.com'',
               u_password = ''h1'', u_phone = Some ''+1-555-1234'', u_role = ''user'',
               u_skills = Some ''[]'',
               u_created_at = 10, u_updated_at = 10\<rparr>,
              \<lparr>u_id = 2, u_name = ''Bob'', u_email = ''bob@example.com'',
               u_password = ''h2'', u_phone = Some ''555 0000'', u_role = ''admin'',
               u_skills = Some ''[]'',
               u_created_at = 10, u_updated_at = 10\<rparr>], next_id = 3\<rparr> =
   ((200, Message ''User updated successfully''),
     \<lparr>rows = [\<lparr>u_id = 1, u_name = ''Alice'', u_email = ''alice@example.com'',
               u_password = ''h1'', u_phone = Some ''+1-555-1234'', u_role = ''user'',
               u_skills = Some ''[]'',
               u_created_at = 10, u_updated_at = 10\<rparr>,
              \<lparr>u_id = 2, u_name = ''Bob'', u_email = ''bob@example.com'',
               u_password = ''h2'', u_phone = Some ''555 0000'', u_role = ''admin'',
               u_skills = Some ''[]'',
               u_created_at = 10, u_updated_at = 10\<rparr>], next_id = 3\<rparr>)"
proof -
  let ?req = "\<lparr>b_name = ''Alice'', b_email = ''alice@example.com'', b_password = None,
      b_phone = Some ''+1-555-1234'', b_role = ''user'', b_skills = Some (JArr [])\<rparr>"
  let ?st = "\<lparr>rows = [\<lparr>u_id = 1, u_name = ''Alice'', u_email = ''alice@example.com'',
               u_password = ''h1'', u_phone = Some ''+1-555-1234'', u_role = ''user'',
               u_skills = Some ''[]'',
               u_created_at = 10, u_updated_at = 10\<rparr>,
              \<lparr>u_id = 2, u_name = ''Bob'', u_email = ''bob@example.com'',
               u_password = ''h2'', u_phone = Some ''555 0000'', u_role = ''admin'',
               u_skills = Some ''[]'',
               u_created_at = 10, u_updated_at = 10\<rparr>], next_id = 3\<rparr>"
  have v: "validateUser sample_lib PUT ?req = []" by code_simp
  have e: "\<not> isEmail sample_lib []" by (simp add: sample_lib_def)
  have f: "fits_columns (trim (b_name ?req)) (b_email ?req) ''+1-555-1234''" by code_simp
  have t: "trim ''Alice'' = ''Alice''" by code_simp
  have missing: "updateUser sample_lib ''s'' 200 3 ?req ?st = ((404, Message ''User not found''), ?st)"
    using update_sequence [OF v e, of ?st 3 "''s''" 200] by simp
  have "fst (updateUser sample_lib ''s'' 200 2 ?req ?st) =
          (400, Message ''Email already in use by another account'') \<and>
        snd (updateUser sample_lib ''s'' 200 2 ?req ?st) = ?st"
    using update_sequence [OF v e, of ?st 2 "''s''" 200] by simp
  then have taken: "updateUser sample_lib ''s'' 200 2 ?req ?st =
      ((400, Message ''Email already in use by another account''), ?st)"
    by (metis prod.collapse)
  have own: "updateUser sample_lib ''s'' 200 1 ?req ?st =
      ((200, Message ''User updated successfully''), ?st)"
    using update_sequence [OF v e, of ?st 1 "''s''" 200] f by (simp add: t skills_or_empty_def on_update_def)
  show ?thesis using missing taken own by simp
qed

text \<open>
  Two update requests on which the unrestricted statement fails: one that fails
  validation, on an id that no record has, is answered 400 with the violations, not 404;
  one that passes every check, with a name of 101 characters, is answered 500 and the
  table is unchanged.
\<close>

theorem update_not_always_applied:
  "updateUser sample_lib ''s'' 200 9
     \<lparr>b_name = ''A'', b_email = ''alice@example.com'', b_password = None,
      b_phone = Some ''+1-555-1234'', b_role = ''user'', b_skills = Some (JArr [])\<rparr>
     empty_store =
   ((400, Errors [(''name'', ''Name must be at least 2 characters'')]), empty_store) \<and>
   validateUser sample_lib PUT
     \<lparr>b_name = replicate 101 CHR ''a'', b_email = ''alice@example.com'', b_password = None,
      b_phone = Some ''+1-555-1234'', b_role = ''user'', b_skills = Some (JArr [])\<rparr> = [] \<and>
   updateUser sample_lib ''s'' 200 1
     \<lparr>b_name = replicate 101 CHR ''a'', b_email = ''alice@example.com'', b_password = None,
      b_phone = Some ''+1-555-1234'', b_role = ''user'', b_skills = Some (JArr [])\<rparr>
     \<lparr>rows = [\<lparr>u_id = 1, u_name = ''Alice'', u_email = ''alice@example.com'',
               u_password = ''h1'', u_phone = Some ''+1-555-1234'', u_role = ''user'',
               u_skills = Some ''[]'',
               u_created_at = 10, u_updated_at = 10\<rparr>], next_id = 2\<rparr> =
   ((500, Message ''Server error''),
     \<lparr>rows = [\<lparr>u_id = 1, u_name = ''Alice'', u_email = ''alice@example.com'',
               u_password = ''h1'', u_phone = Some ''+1-555-1234'', u_role = ''user'',
               u_skills = Some ''[]'',
               u_created_at = 10, u_updated_at = 10\<rparr>], next_id = 2\<rparr>)"
  by code_simp


lemma on_update_forget:
  "(on_update now r (r\<lparr>u_password := h\<rparr>))\<lparr>u_password := [], u_updated_at := 0\<rparr> =
   r\<lparr>u_password := [], u_updated_at := 0\<rparr>"
  by (cases r) (simp add: on_update_def)

text \<open>
  C3, as the code has it. For an update request on the id of a stored record that
  passes validation, has a phone, fits the columns and whose email no record of another
  id owns, the answer is 200. With the password absent, empty or blank the password
  column of every record keeps its value; with any other password that of the record
  becomes the hash of that password under the salt drawn. In both cases \<open>name\<close> is set to
  the name of the request trimmed of surrounding white space, \<open>email\<close>, \<open>phone\<close> and
  \<open>role\<close> to the values of the request, and \<open>skills\<close> to the serialization of the array
  of the request, which the driver reads back as that array; \<open>updated_at\<close> is set when
  one of these columns changes.
\<close>

theorem update_password_optional:
  assumes "validateUser L PUT req = []"
    and "\<exists>r \<in> set (rows st). u_id r = uid"
    and "\<not> (\<exists>r \<in> set (rows st). u_id r \<noteq> uid \<and> u_email r = b_email req)"
    and "b_phone req = Some ph"
    and "fits_columns (trim (b_name req)) (b_email req) ph"
    and "b_skills req = Some skills"
  shows
    "(b_password req = None \<or> (\<exists>p. b_password req = Some p \<and> trim p = []) \<longrightarrow>
        updateUser L salt now uid req st =
          ((200, Message ''User updated successfully''),
           st\<lparr>rows := map (\<lambda>r. if u_id r = uid
              then on_update now r
                     (r\<lparr>u_name := trim (b_name req), u_email := b_email req,
                        u_phone := Some ph, u_role := b_role req,
                        u_skills := Some (JSON_stringify skills)\<rparr>)
              else r) (rows st)\<rparr>) \<and>
        map u_password (rows (snd (updateUser L salt now uid req st))) =
          map u_password (rows st)) \<and>
     (\<forall>p. b_password req = Some p \<and> trim p \<noteq> [] \<longrightarrow>
        updateUser L salt now uid req st =
          ((200, Message ''User updated successfully''),
           st\<lparr>rows := map (\<lambda>r. if u_id r = uid
              then on_update now r
                     (r\<lparr>u_name := trim (b_name req), u_email := b_email req,
                        u_password := bcrypt_hash L p salt, u_phone := Some ph,
                        u_role := b_role req, u_skills := Some (JSON_stringify skills)\<rparr>)
              else r) (rows st)\<rparr>)) \<and>
     (wf_json skills \<longrightarrow> driver_json (Some (JSON_stringify skills)) = Some skills)"
proof -
  from validated_skills [OF assms(1)] assms(6) obtain xs where xs: "skills = JArr xs" by auto
  then have sk: "skills_or_empty (b_skills req) = skills"
    using assms(6) by (simp add: skills_or_empty_def)
  note u = updateUser_applied [OF assms(1-5), of salt now, unfolded sk]
  have d: "wf_json skills \<Longrightarrow> driver_json (Some (JSON_stringify skills)) = Some skills"
    unfolding driver_json_def option.case by (rule JSON_parse_stringify)
  have blank: "updateUser L salt now uid req st =
          ((200, Message ''User updated successfully''),
           st\<lparr>rows := map (\<lambda>r. if u_id r = uid
              then on_update now r
                     (r\<lparr>u_name := trim (b_name req), u_email := b_email req,
                        u_phone := Some ph, u_role := b_role req,
                        u_skills := Some (JSON_stringify skills)\<rparr>)
              else r) (rows st)\<rparr>)"
    if "b_password req = None \<or> (\<exists>p. b_password req = Some p \<and> trim p = [])"
    unfolding u using that by (auto intro!: arg_cong [where f = "\<lambda>f. map f (rows st)"])
  have kept: "map u_password (rows (snd (updateUser L salt now uid req st))) =
          map u_password (rows st)"
    if "b_password req = None \<or> (\<exists>p. b_password req = Some p \<and> trim p = [])"
    unfolding blank [OF that] by (simp add: o_def on_update_columns if_distrib cong: if_cong)
  have given: "b_password req = Some p \<and> trim p \<noteq> [] \<Longrightarrow>
        updateUser L salt now uid req st =
          ((200, Message ''User updated successfully''),
           st\<lparr>rows := map (\<lambda>r. if u_id r = uid
              then on_update now r
                     (r\<lparr>u_name := trim (b_name req), u_email := b_email req,
                        u_password := bcrypt_hash L p salt, u_phone := Some ph,
                        u_role := b_role req, u_skills := Some (JSON_stringify skills)\<rparr>)
              else r) (rows st)\<rparr>)" for p
    unfolding u by simp
  show ?thesis using blank kept given d by blast
qed

theorem update_password_optional_witness:
  "updateUser sample_lib ''s2'' 200 1
     \<lparr>b_name = ''Alice B'', b_email = ''ab@example.com'', b_password = Some [],
      b_phone = Some ''555 123 4567'', b_role = ''admin'', b_skills = Some (JArr [JStr ''AWS''])\<rparr>
     \<lparr>rows = [\<lparr>u_id = 1, u_name = ''Alice'', u_email = ''alice@example.com'',
               u_password = ''s1Passw0rd!'', u_phone = Some ''+1-555-1234'', u_role = ''user'',
               u_skills = Some ''[]'', u_created_at = 10, u_updated_at = 10\<rparr>],
      next_id = 2\<rparr> =
   ((200, Message ''User updated successfully''),
    \<lparr>rows = [\<lparr>u_id = 1, u_name = ''Alice B'', u_email = ''ab@example.com'',
              u_password = ''s1Passw0rd!'', u_phone = Some ''555 123 4567'', u_role = ''admin'',
              u_skills = Some (JSON_stringify (JArr [JStr ''AWS''])),
              u_created_at = 10, u_updated_at = 200\<rparr>], next_id = 2\<rparr>) \<and>
   updateUser sample_lib ''s2'' 200 1
     \<lparr>b_name = ''Alice B'', b_email = ''ab@example.com'', b_password = Some ''N3w!Passw0rd'',
      b_phone = Some ''555 123 4567'', b_role = ''admin'', b_skills = Some (JArr [JStr ''AWS''])\<rparr>
     \<lparr>rows = [\<lparr>u_id = 1, u_name = ''Alice'', u_email = ''alice@example.com'',
               u_password = ''s1Passw0rd!'', u_phone = Some ''+1-555-1234'', u_role = ''user'',
               u_skills = Some ''[]'', u_created_at = 10, u_updated_at = 10\<rparr>],
      next_id = 2\<rparr> =
   ((200, Message ''User updated successfully''),
    \<lparr>rows = [\<lparr>u_id = 1, u_name = ''Alice B'', u_email = ''ab@example.com'',
              u_password = ''s2N3w!Passw0rd'', u_phone = Some ''555 123 4567'', u_role = ''admin'',
              u_skills = Some (JSON_stringify (JArr [JStr ''AWS''])),
              u_created_at = 10, u_updated_at = 200\<rparr>], next_id = 2\<rparr>) \<and>
   driver_json (Some (JSON_stringify (JArr [JStr ''AWS'']))) = Some (JArr [JStr ''AWS''])"
proof -
  let ?keep = "\<lparr>b_name = ''Alice B'', b_email = ''ab@example.com'', b_password = Some [],
      b_phone = Some ''555 123 4567'', b_role = ''admin'', b_skills = Some (JArr [JStr ''AWS''])\<rparr>"
  let ?change = "\<lparr>b_name = ''Alice B'', b_email = ''ab@example.com'',
      b_password = Some ''N3w!Passw0rd'', b_phone = Some ''555 123 4567'', b_role = ''admin'',
      b_skills = Some (JArr [JStr ''AWS''])\<rparr>"
  let ?st = "\<lparr>rows = [\<lparr>u_id = 1, u_name = ''Alice'', u_email = ''alice@example.com'',
               u_password = ''s1Passw0rd!'', u_phone = Some ''+1-555-1234'', u_role = ''user'',
               u_skills = Some ''[]'', u_created_at = 10, u_updated_at = 10\<rparr>],
      next_id = 2\<rparr>"
  have v1: "validateUser sample_lib PUT ?keep = []" by code_simp
  have v2: "validateUser sample_lib PUT ?change = []" by code_simp
  have ex: "\<exists>r \<in> set (rows ?st). u_id r = 1" by simp
  have n1: "\<not> (\<exists>r \<in> set (rows ?st). u_id r \<noteq> 1 \<and> u_email r = b_email ?keep)" by simp
  have n2: "\<not> (\<exists>r \<in> set (rows ?st). u_id r \<noteq> 1 \<and> u_email r = b_email ?change)" by simp
  have p1: "b_phone ?keep = Some ''555 123 4567''" by simp
  have p2: "b_phone ?change = Some ''555 123 4567''" by simp
  have f1: "fits_columns (trim (b_name ?keep)) (b_email ?keep) ''555 123 4567''" by code_simp
  have f2: "fits_columns (trim (b_name ?change)) (b_email ?change) ''555 123 4567''" by code_simp
  have s1: "b_skills ?keep = Some (JArr [JStr ''AWS''])" by simp
  have s2: "b_skills ?change = Some (JArr [JStr ''AWS''])" by simp
  have t0: "trim [] = []" "trim ''Alice B'' = ''Alice B''" "trim ''N3w!Passw0rd'' \<noteq> []"
    by code_simp+
  have w: "wf_json (JArr [JStr ''AWS''])" by simp
  show ?thesis
    using update_password_optional [OF v1 ex n1 p1 f1 s1, of "''s2''" 200]
      update_password_optional [OF v2 ex n2 p2 f2 s2, of "''s2''" 200] w
    by (simp add: t0 sample_lib_def on_update_def del: JSON_stringify.simps)
qed

text \<open>
  The stored name is the trimmed one, not the one of the request; and a request whose
  fields pass validation is refused when its email belongs to another record.
\<close>

theorem update_trims_name:
  "updateUser sample_lib ''s2'' 200 1
     \<lparr>b_name = '' Bob '', b_email = ''alice@example.com'', b_password = Some [],
      b_phone = Some ''+1-555-1234'', b_role = ''user'', b_skills = Some (JArr [])\<rparr>
     \<lparr>rows = [\<lparr>u_id = 1, u_name = ''Alice'', u_email = ''alice@example.com'',
               u_password = ''s1Passw0rd!'', u_phone = Some ''+1-555-1234'', u_role = ''user'',
               u_skills = Some ''[]'', u_created_at = 10, u_updated_at = 10\<rparr>],
      next_id = 2\<rparr> =
   ((200, Message ''User updated successfully''),
    \<lparr>rows = [\<lparr>u_id = 1, u_name = ''Bob'', u_email = ''alice@example.com'',
              u_password = ''s1Passw0rd!'', u_phone = Some ''+1-555-1234'', u_role = ''user'',
              u_skills = Some ''[]'', u_created_at = 10, u_updated_at = 200\<rparr>],
     next_id = 2\<rparr>) \<and>
   ''Bob'' \<noteq> '' Bob '' \<and>
   validateUser sample_lib PUT
     \<lparr>b_name = ''Alice'', b_email = ''bob@example.com'', b_password = Some [],
      b_phone = Some ''+1-555-1234'', b_role = ''user'', b_skills = Some (JArr [])\<rparr> = [] \<and>
   updateUser sample_lib ''s2'' 200 1
     \<lparr>b_name = ''Alice'', b_email = ''bob@example.com'', b_password = Some [],
      b_phone = Some ''+1-555-1234'', b_role = ''user'', b_skills = Some (JArr [])\<rparr>
     \<lparr>rows = [\<lparr>u_id = 1, u_name = ''Alice'', u_email = ''alice@example.com'',
               u_password = ''h1'', u_phone = Some ''+1-555-1234'', u_role = ''user'',
               u_skills = Some ''[]'', u_created_at = 10, u_updated_at = 10\<rparr>,
              \<lparr>u_id = 2, u_name = ''Bob'', u_email = ''bob@example.com'',
               u_password = ''h2'', u_phone = Some ''555 0000'', u_role = ''admin'',
               u_skills = Some ''[]'', u_created_at = 10, u_updated_at = 10\<rparr>],
      next_id = 3\<rparr> =
   ((400, Message ''Email already in use by another account''),
     \<lparr>rows = [\<lparr>u_id = 1, u_name = ''Alice'', u_email = ''alice@example.com'',
               u_password = ''h1'', u_phone = Some ''+1-555-1234'', u_role = ''user'',
               u_skills = Some ''[]'', u_created_at = 10, u_updated_at = 10\<rparr>,
              \<lparr>u_id = 2, u_name = ''Bob'', u_email = ''bob@example.com'',
               u_password = ''h2'', u_phone = Some ''555 0000'', u_role = ''admin'',
               u_skills = Some ''[]'', u_created_at = 10, u_updated_at = 10\<rparr>],
      next_id = 3\<rparr>)"
  by code_simp

text \<open>
  C6, as the code has it. Applying an update a second time with the same request gives
  the same response as the first time and leaves the counter and every column but the
  password hash and \<open>updated_at\<close> as the first application left them. The whole table
  is as the first application left it when the password of the request is absent, empty
  or blank, or when the same salt is drawn again. When a password is given and the update
  is applied, the record holds after the first application the hash of the password under
  the first salt, and the second application changes the table in this only: if the hash
  under the second salt is another one, it replaces the first in the record, whose
  \<open>updated_at\<close> becomes the time of the second application.
\<close>

theorem update_twice:
  "fst (updateUser L s2 t2 uid req (snd (updateUser L s1 t1 uid req st))) =
     fst (updateUser L s1 t1 uid req st) \<and>
   map (\<lambda>r. r\<lparr>u_password := [], u_updated_at := 0\<rparr>)
     (rows (snd (updateUser L s2 t2 uid req (snd (updateUser L s1 t1 uid req st))))) =
     map (\<lambda>r. r\<lparr>u_password := [], u_updated_at := 0\<rparr>)
       (rows (snd (updateUser L s1 t1 uid req st))) \<and>
   next_id (snd (updateUser L s2 t2 uid req (snd (updateUser L s1 t1 uid req st)))) =
     next_id (snd (updateUser L s1 t1 uid req st)) \<and>
   (b_password req = None \<or> (\<exists>p. b_password req = Some p \<and> trim p = []) \<or> s1 = s2 \<longrightarrow>
      snd (updateUser L s2 t2 uid req (snd (updateUser L s1 t1 uid req st))) =
        snd (updateUser L s1 t1 uid req st)) \<and>
   (\<forall>p. b_password req = Some p \<and> trim p \<noteq> [] \<and>
        fst (updateUser L s1 t1 uid req st) = (200, Message ''User updated successfully'') \<longrightarrow>
      (\<forall>r \<in> set (rows (snd (updateUser L s1 t1 uid req st))).
         u_id r = uid \<longrightarrow> u_password r = bcrypt_hash L p s1) \<and>
      rows (snd (updateUser L s2 t2 uid req (snd (updateUser L s1 t1 uid req st)))) =
        map (\<lambda>r. if u_id r = uid \<and> bcrypt_hash L p s2 \<noteq> bcrypt_hash L p s1
                  then r\<lparr>u_password := bcrypt_hash L p s2, u_updated_at := t2\<rparr> else r)
          (rows (snd (updateUser L s1 t1 uid req st))))"
proof -
  define once where "once = updateUser L s1 t1 uid req st"
  define twice where "twice = updateUser L s2 t2 uid req (snd once)"
  have "fst twice = fst once \<and>
    map (\<lambda>r. r\<lparr>u_password := [], u_updated_at := 0\<rparr>) (rows (snd twice)) =
      map (\<lambda>r. r\<lparr>u_password := [], u_updated_at := 0\<rparr>) (rows (snd once)) \<and>
    next_id (snd twice) = next_id (snd once) \<and>
    (b_password req = None \<or> (\<exists>p. b_password req = Some p \<and> trim p = []) \<or> s1 = s2
       \<longrightarrow> snd twice = snd once) \<and>
    (\<forall>p. b_password req = Some p \<and> trim p \<noteq> [] \<and>
         fst once = (200, Message ''User updated successfully'') \<longrightarrow>
       (\<forall>r \<in> set (rows (snd once)). u_id r = uid \<longrightarrow> u_password r = bcrypt_hash L p s1) \<and>
       rows (snd twice) =
         map (\<lambda>r. if u_id r = uid \<and> bcrypt_hash L p s2 \<noteq> bcrypt_hash L p s1
                   then r\<lparr>u_password := bcrypt_hash L p s2, u_updated_at := t2\<rparr> else r)
           (rows (snd once)))"
  proof (cases "validateUser L PUT req = []")
    case False
    then show ?thesis unfolding once_def twice_def by (simp add: updateUser_invalid)
  next
    case True
    let ?h = "\<lambda>salt. case b_password req of
                     None \<Rightarrow> None
                   | Some password \<Rightarrow>
                       if password \<noteq> [] \<and> trim password \<noteq> []
                       then Some (bcrypt_hash L password salt) else None"
    let ?upd = "\<lambda>salt now. update_user (trim (b_name req)) (b_email req) (?h salt) (b_phone req)
                  (b_role req) (JSON_stringify (skills_or_empty (b_skills req))) now uid"
    note b = updateUser_branches [OF True]
    let ?ex = "\<lambda>st. \<exists>r \<in> set (rows st). u_id r = uid"
    let ?conflict = "\<lambda>st. b_email req \<noteq> [] \<and>
                       (\<exists>r \<in> set (rows st). u_id r \<noteq> uid \<and> u_email r = b_email req)"
    consider (missing) "\<not> ?ex st" | (conflict) "?ex st" "?conflict st"
      | (rejected) "?ex st" "\<not> ?conflict st" "?upd s1 t1 st = None"
      | (applied) st1 where "?ex st" "\<not> ?conflict st" "?upd s1 t1 st = Some st1"
      by (cases "?upd s1 t1 st") auto
    then show ?thesis
    proof cases
      case missing
      then have o: "once = ((404, Message ''User not found''), st)"
        unfolding once_def by (rule b(1))
      have "twice = ((404, Message ''User not found''), st)"
        unfolding twice_def o snd_conv using missing by (rule b(1))
      then show ?thesis using o by simp
    next
      case conflict
      then have o: "once = ((400, Message ''Email already in use by another account''), st)"
        unfolding once_def by (rule b(2))
      have "twice = ((400, Message ''Email already in use by another account''), st)"
        unfolding twice_def o snd_conv using conflict by (rule b(2))
      then show ?thesis using o by simp
    next
      case rejected
      then have o: "once = (server_error, st)"
        unfolding once_def by (rule b(3))
      have "?upd s2 t2 st = None"
        using rejected(3) by (auto simp: update_user_def split: option.splits if_splits)
      then have "twice = (server_error, st)"
        unfolding twice_def o snd_conv using rejected(1,2) by (intro b(3))
      then show ?thesis using o by (simp add: server_error_def)
    next
      case applied
      then have o: "once = ((200, Message ''User updated successfully''), st1)"
        unfolding once_def by (rule b(4))
      let ?g = "\<lambda>r. if u_id r = uid
                     then on_update t2 r
                            (r\<lparr>u_password := (case ?h s2 of None \<Rightarrow> u_password r | Some h \<Rightarrow> h)\<rparr>)
                     else r"
      define st2 where "st2 = st1\<lparr>rows := map ?g (rows st1)\<rparr>"
      have u2: "?upd s2 t2 st1 = Some st2"
        unfolding st2_def by (rule update_user_again [OF applied(3)])
      have ok1: "?ex st1" "\<not> ?conflict st1"
        using applied(1,2) update_user_ids [OF applied(3), of "b_email req"] by simp_all
      have t: "twice = ((200, Message ''User updated successfully''), st2)"
        unfolding twice_def o snd_conv using ok1 u2 by (intro b(4))
      have written: "u_password r = h"
        if "r \<in> set (rows st1)" "u_id r = uid" "?h s1 = Some h" for r h
        using update_user_written [OF applied(3) that(1,2)] that(3) by blast
      have forget: "map (\<lambda>r. r\<lparr>u_password := [], u_updated_at := 0\<rparr>) (rows st2) =
                    map (\<lambda>r. r\<lparr>u_password := [], u_updated_at := 0\<rparr>) (rows st1)"
        unfolding st2_def by (simp add: o_def if_distrib on_update_forget cong: if_cong)
      have same: "st2 = st1" if "?h s2 = None \<or> ?h s2 = ?h s1"
      proof -
        have "?g r = r" if r: "r \<in> set (rows st1)" for r
        proof (cases "u_id r = uid")
          case False
          then show ?thesis by simp
        next
          case True
          have "(case ?h s2 of None \<Rightarrow> u_password r | Some h \<Rightarrow> h) = u_password r"
          proof (cases "?h s2")
            case None
            then show ?thesis by simp
          next
            case (Some h)
            then have "?h s1 = Some h" using \<open>?h s2 = None \<or> ?h s2 = ?h s1\<close> by simp
            then show ?thesis using written [OF r True] Some by simp
          qed
          then show ?thesis using True by (simp add: on_update_def)
        qed
        then have "map ?g (rows st1) = rows st1" by (simp add: map_idI)
        then show ?thesis unfolding st2_def by simp
      qed
      have blank: "b_password req = None \<or> (\<exists>p. b_password req = Some p \<and> trim p = []) \<or> s1 = s2
            \<Longrightarrow> ?h s2 = None \<or> ?h s2 = ?h s1"
        by (auto split: option.splits)
      have given: "(\<forall>r \<in> set (rows st1). u_id r = uid \<longrightarrow> u_password r = bcrypt_hash L p s1) \<and>
          rows st2 =
            map (\<lambda>r. if u_id r = uid \<and> bcrypt_hash L p s2 \<noteq> bcrypt_hash L p s1
                      then r\<lparr>u_password := bcrypt_hash L p s2, u_updated_at := t2\<rparr> else r)
              (rows st1)"
        if p: "b_password req = Some p" "trim p \<noteq> []" for p
      proof -
        have ne: "p \<noteq> []" using p(2) trim_Nil by auto
        have h: "?h s1 = Some (bcrypt_hash L p s1)" "?h s2 = Some (bcrypt_hash L p s2)"
          using p ne by simp_all
        have w: "\<forall>r \<in> set (rows st1). u_id r = uid \<longrightarrow> u_password r = bcrypt_hash L p s1"
          using written h(1) by blast
        have "?g r = (if u_id r = uid \<and> bcrypt_hash L p s2 \<noteq> bcrypt_hash L p s1
                      then r\<lparr>u_password := bcrypt_hash L p s2, u_updated_at := t2\<rparr> else r)"
          if "r \<in> set (rows st1)" for r
          using w that unfolding h option.case on_update_password by auto
        then have "map ?g (rows st1) =
            map (\<lambda>r. if u_id r = uid \<and> bcrypt_hash L p s2 \<noteq> bcrypt_hash L p s1
                      then r\<lparr>u_password := bcrypt_hash L p s2, u_updated_at := t2\<rparr> else r)
              (rows st1)"
          by (intro map_cong [OF refl])
        then show ?thesis using w unfolding st2_def by simp
      qed
      have n: "next_id st2 = next_id st1" unfolding st2_def by simp
      show ?thesis
        unfolding t o fst_conv snd_conv
        using forget n same blank given by blast
    qed
  qed
  then show ?thesis unfolding twice_def once_def .
qed

theorem update_twice_witness:
  "updateUser sample_lib ''s1'' 200 1
     \<lparr>b_name = ''Alice B'', b_email = ''ab@example.com'', b_password = None,
      b_phone = Some ''555 123 4567'', b_role = ''admin'', b_skills = Some (JArr [JStr ''AWS''])\<rparr>
     \<lparr>rows = [\<lparr>u_id = 1, u_name = ''Alice'', u_email = ''alice@example.com'',
               u_password = ''s0Passw0rd!'', u_phone = Some ''+1-555-1234'', u_role = ''user'',
               u_skills = Some ''[]'', u_created_at = 10, u_updated_at = 10\<rparr>],
      next_id = 2\<rparr> =
   ((200, Message ''User updated successfully''),
    \<lparr>rows = [\<lparr>u_id = 1, u_name = ''Alice B'', u_email = ''ab@example.com'',
              u_password = ''s0Passw0rd!'', u_phone = Some ''555 123 4567'', u_role = ''admin'',
              u_skills = Some (JSON_stringify (JArr [JStr ''AWS''])),
              u_created_at = 10, u_updated_at = 200\<rparr>], next_id = 2\<rparr>) \<and>
   updateUser sample_lib ''s2'' 300 1
     \<lparr>b_name = ''Alice B'', b_email = ''ab@example.com'', b_password = None,
      b_phone = Some ''555 123 4567'', b_role = ''admin'', b_skills = Some (JArr [JStr ''AWS''])\<rparr>
     \<lparr>rows = [\<lparr>u_id = 1, u_name = ''Alice B'', u_email = ''ab@example.com'',
              u_password = ''s0Passw0rd!'', u_phone = Some ''555 123 4567'', u_role = ''admin'',
              u_skills = Some (JSON_stringify (JArr [JStr ''AWS''])),
              u_created_at = 10, u_updated_at = 200\<rparr>], next_id = 2\<rparr> =
   ((200, Message ''User updated successfully''),
    \<lparr>rows = [\<lparr>u_id = 1, u_name = ''Alice B'', u_email = ''ab@example.com'',
              u_password = ''s0Passw0rd!'', u_phone = Some ''555 123 4567'', u_role = ''admin'',
              u_skills = Some (JSON_stringify (JArr [JStr ''AWS''])),
              u_created_at = 10, u_updated_at = 200\<rparr>], next_id = 2\<rparr>) \<and>
   rows (snd (updateUser sample_lib ''s2'' 300 1
     \<lparr>b_name = ''Alice B'', b_email = ''ab@example.com'', b_password = Some ''Passw0rd!'',
      b_phone = Some ''555 123 4567'', b_role = ''admin'', b_skills = Some (JArr [JStr ''AWS''])\<rparr>
     \<lparr>rows = [\<lparr>u_id = 1, u_name = ''Alice B'', u_email = ''ab@example.com'',
              u_password = ''s1Passw0rd!'', u_phone = Some ''555 123 4567'', u_role = ''admin'',
              u_skills = Some (JSON_stringify (JArr [JStr ''AWS''])),
              u_created_at = 10, u_updated_at = 200\<rparr>], next_id = 2\<rparr>)) =
   [\<lparr>u_id = 1, u_name = ''Alice B'', u_email = ''ab@example.com'',
     u_password = ''s2Passw0rd!'', u_phone = Some ''555 123 4567'', u_role = ''admin'',
     u_skills = Some (JSON_stringify (JArr [JStr ''AWS''])),
     u_created_at = 10, u_updated_at = 300\<rparr>]"
proof -
  let ?req = "\<lparr>b_name = ''Alice B'', b_email = ''ab@example.com'', b_password = None,
      b_phone = Some ''555 123 4567'', b_role = ''admin'', b_skills = Some (JArr [JStr ''AWS''])\<rparr>"
  let ?given = "\<lparr>b_name = ''Alice B'', b_email = ''ab@example.com'',
      b_password = Some ''Passw0rd!'', b_phone = Some ''555 123 4567'', b_role = ''admin'',
      b_skills = Some (JArr [JStr ''AWS''])\<rparr>"
  let ?st = "\<lparr>rows = [\<lparr>u_id = 1, u_name = ''Alice'', u_email = ''alice@example.com'',
               u_password = ''s0Passw0rd!'', u_phone = Some ''+1-555-1234'', u_role = ''user'',
               u_skills = Some ''[]'', u_created_at = 10, u_updated_at = 10\<rparr>],
      next_id = 2\<rparr>"
  let ?st1 = "\<lparr>rows = [\<lparr>u_id = 1, u_name = ''Alice B'', u_email = ''ab@example.com'',
              u_password = ''s0Passw0rd!'', u_phone = Some ''555 123 4567'', u_role = ''admin'',
              u_skills = Some (JSON_stringify (JArr [JStr ''AWS''])),
              u_created_at = 10, u_updated_at = 200\<rparr>], next_id = 2\<rparr>"
  let ?st1' = "\<lparr>rows = [\<lparr>u_id = 1, u_name = ''Alice B'', u_email = ''ab@example.com'',
              u_password = ''s1Passw0rd!'', u_phone = Some ''555 123 4567'', u_role = ''admin'',
              u_skills = Some (JSON_stringify (JArr [JStr ''AWS''])),
              u_created_at = 10, u_updated_at = 200\<rparr>], next_id = 2\<rparr>"
  have once: "updateUser sample_lib ''s1'' 200 1 ?req ?st =
                ((200, Message ''User updated successfully''), ?st1)"
    by code_simp
  have once': "updateUser sample_lib ''s1'' 200 1 ?given ?st =
                ((200, Message ''User updated successfully''), ?st1')"
    by code_simp
  have t: "trim ''Passw0rd!'' \<noteq> []" by code_simp
  have h: "bcrypt_hash sample_lib ''Passw0rd!'' ''s1'' = ''s1Passw0rd!''"
    "bcrypt_hash sample_lib ''Passw0rd!'' ''s2'' = ''s2Passw0rd!''"
    by (simp_all add: sample_lib_def)
  have "fst (updateUser sample_lib ''s2'' 300 1 ?req ?st1) =
          (200, Message ''User updated successfully'')
        \<and> snd (updateUser sample_lib ''s2'' 300 1 ?req ?st1) = ?st1"
    using update_twice [of sample_lib "''s2''" 300 1 ?req "''s1''" 200 ?st] unfolding once
    by (simp del: JSON_stringify.simps)
  then have twice: "updateUser sample_lib ''s2'' 300 1 ?req ?st1 =
               ((200, Message ''User updated successfully''), ?st1)"
    by (metis prod.collapse)
  have twice': "rows (snd (updateUser sample_lib ''s2'' 300 1 ?given ?st1')) =
     [\<lparr>u_id = 1, u_name = ''Alice B'', u_email = ''ab@example.com'',
       u_password = ''s2Passw0rd!'', u_phone = Some ''555 123 4567'', u_role = ''admin'',
       u_skills = Some (JSON_stringify (JArr [JStr ''AWS''])),
       u_created_at = 10, u_updated_at = 300\<rparr>]"
    using update_twice [of sample_lib "''s2''" 300 1 ?given "''s1''" 200 ?st] t
    unfolding once' by (simp add: h del: JSON_stringify.simps)
  from once twice twice' show ?thesis by (simp del: JSON_stringify.simps)
qed

text \<open>With a password in the request, the second application stores another hash.\<close>

theorem update_twice_rehashes:
  "updateUser sample_lib ''s1'' 200 1
     \<lparr>b_name = ''Alice'', b_email = ''alice@example.com'', b_password = Some ''Passw0rd!'',
      b_phone = Some ''+1-555-1234'', b_role = ''user'', b_skills = Some (JArr [])\<rparr>
     \<lparr>rows = [\<lparr>u_id = 1, u_name = ''Alice'', u_email = ''alice@example.com'',
               u_password = ''s0Passw0rd!'', u_phone = Some ''+1-555-1234'', u_role = ''user'',
               u_skills = Some ''[]'', u_created_at = 10, u_updated_at = 10\<rparr>],
      next_id = 2\<rparr> =
   ((200, Message ''User updated successfully''),
    \<lparr>rows = [\<lparr>u_id = 1, u_name = ''Alice'', u_email = ''alice@example.com'',
              u_password = ''s1Passw0rd!'', u_phone = Some ''+1-555-1234'', u_role = ''user'',
              u_skills = Some ''[]'', u_created_at = 10, u_updated_at = 200\<rparr>],
     next_id = 2\<rparr>) \<and>
   updateUser sample_lib ''s2'' 300 1
     \<lparr>b_name = ''Alice'', b_email = ''alice@example.com'', b_password = Some ''Passw0rd!'',
      b_phone = Some ''+1-555-1234'', b_role = ''user'', b_skills = Some (JArr [])\<rparr>
     \<lparr>rows = [\<lparr>u_id = 1, u_name = ''Alice'', u_email = ''alice@example.com'',
              u_password = ''s1Passw0rd!'', u_phone = Some ''+1-555-1234'', u_role = ''user'',
              u_skills = Some ''[]'', u_created_at = 10, u_updated_at = 200\<rparr>],
      next_id = 2\<rparr> =
   ((200, Message ''User updated successfully''),
    \<lparr>rows = [\<lparr>u_id = 1, u_name = ''Alice'', u_email = ''alice@example.com'',
              u_password = ''s2Passw0rd!'', u_phone = Some ''+1-555-1234'', u_role = ''user'',
              u_skills = Some ''[]'', u_created_at = 10, u_updated_at = 300\<rparr>],
     next_id = 2\<rparr>) \<and>
   ''s2Passw0rd!'' \<noteq> ''s1Passw0rd!''"
  by code_simp


section \<open>Properties of the \<open>skills\<close> column\<close>

lemma skills_inv_empty: "skills_inv P empty_store"
  by (simp add: skills_inv_def empty_store_def)

lemma createUser_skills_inv:
  assumes "skills_inv P st" and "\<forall>xs. b_skills req = Some (JArr xs) \<longrightarrow> list_all P xs"
  shows "skills_inv P (snd (createUser L salt now req st))"
proof -
  consider "snd (createUser L salt now req st) = st"
    | body where
      "createUser L salt now req st = ((201, body), snd (createUser L salt now req st))"
    using createUser_rows [of L salt now req st] by blast
  then show ?thesis
  proof cases
    case 1
    then show ?thesis using assms(1) by simp
  next
    case 2
    from createUser_created [OF 2] obtain pw ph where
      v: "validateUser L POST req = []" and
      s: "snd (createUser L salt now req st) = st\<lparr>rows := rows st @
                     [\<lparr>u_id = next_id st, u_name = trim (b_name req), u_email = b_email req,
                       u_password = bcrypt_hash L pw salt, u_phone = Some ph,
                       u_role = b_role req,
                       u_skills = Some (JSON_stringify (skills_or_empty (b_skills req))),
                       u_created_at = now, u_updated_at = now\<rparr>],
                   next_id := Suc (next_id st)\<rparr>"
      by auto
    from validated_skills [OF v] obtain xs where xs: "b_skills req = Some (JArr xs)" by blast
    then have "list_all P xs" using assms(2) by simp
    then have "\<exists>ys. Some (JSON_stringify (skills_or_empty (b_skills req))) =
                 Some (JSON_stringify (JArr ys)) \<and> list_all P ys"
      unfolding xs skills_or_empty_array by blast
    then show ?thesis unfolding s using assms(1)
      by (simp add: skills_inv_def del: JSON_stringify.simps)
  qed
qed

lemma updateUser_rows:
  "snd (updateUser L salt now uid req st) = st \<or>
   (validateUser L PUT req = [] \<and>
    (\<exists>g. snd (updateUser L salt now uid req st) = st\<lparr>rows := map g (rows st)\<rparr> \<and>
         (\<forall>r. u_id r \<noteq> uid \<longrightarrow> g r = r) \<and>
         (\<forall>r. u_id r = uid \<longrightarrow>
            u_skills (g r) = Some (JSON_stringify (skills_or_empty (b_skills req))))))"
proof (cases "validateUser L PUT req = []")
  case False
  then show ?thesis by (simp add: updateUser_invalid)
next
  case True
  note u = updateUser_valid [OF True, of salt now uid st]
  show ?thesis
  proof (cases "snd (updateUser L salt now uid req st) = st")
    case False
    then obtain st' where
      s: "update_user (trim (b_name req)) (b_email req)
                (case b_password req of
                   None \<Rightarrow> None
                 | Some password \<Rightarrow>
                     if password \<noteq> [] \<and> trim password \<noteq> []
                     then Some (bcrypt_hash L password salt) else None)
                (b_phone req) (b_role req) (JSON_stringify (skills_or_empty (b_skills req)))
                now uid st = Some st'"
      and r: "snd (updateUser L salt now uid req st) = st'"
      unfolding u by (auto split: if_splits option.splits)
    from update_user_map [OF s] obtain g where
      "st' = st\<lparr>rows := map g (rows st)\<rparr>" "\<And>r. u_id r \<noteq> uid \<Longrightarrow> g r = r"
      "\<And>r. u_id r = uid \<Longrightarrow>
         u_skills (g r) = Some (JSON_stringify (skills_or_empty (b_skills req)))"
      by blast
    then show ?thesis using True r by blast
  qed simp
qed

lemma updateUser_skills_inv:
  assumes "skills_inv P st" and "\<forall>xs. b_skills req = Some (JArr xs) \<longrightarrow> list_all P xs"
  shows "skills_inv P (snd (updateUser L salt now uid req st))"
proof -
  from updateUser_rows [of L salt now uid req st] show ?thesis
  proof (elim disjE conjE exE)
    assume "snd (updateUser L salt now uid req st) = st"
    then show ?thesis using assms(1) by simp
  next
    fix g
    assume v: "validateUser L PUT req = []"
      and s: "snd (updateUser L salt now uid req st) = st\<lparr>rows := map g (rows st)\<rparr>"
      and o: "\<forall>r. u_id r \<noteq> uid \<longrightarrow> g r = r"
      and w: "\<forall>r. u_id r = uid \<longrightarrow>
                u_skills (g r) = Some (JSON_stringify (skills_or_empty (b_skills req)))"
    from validated_skills [OF v] obtain xs where xs: "b_skills req = Some (JArr xs)" by blast
    then have p: "list_all P xs" using assms(2) by simp
    have "\<exists>ys. u_skills (g r) = Some (JSON_stringify (JArr ys)) \<and> list_all P ys"
      if "r \<in> set (rows st)" for r
    proof (cases "u_id r = uid")
      case True
      then have "u_skills (g r) = Some (JSON_stringify (JArr xs))"
        using w unfolding xs skills_or_empty_array by blast
      then show ?thesis using p by blast
    next
      case False
      then have "g r = r" using o by blast
      then show ?thesis using assms(1) that by (simp add: skills_inv_def)
    qed
    then show ?thesis unfolding s by (simp add: skills_inv_def del: JSON_stringify.simps)
  qed
qed

lemma deleteUser_skills_inv:
  "skills_inv P st \<Longrightarrow> skills_inv P (snd (deleteUser uid st))"
  by (simp add: deleteUser_def Let_def skills_inv_def)

lemma skills_inv_driver:
  assumes "skills_inv P st" and "\<forall>v. P v \<longrightarrow> wf_json v" and "r \<in> set (rows st)"
  shows "\<exists>xs. driver_json (u_skills r) = Some (JArr xs) \<and> list_all P xs"
proof -
  from assms(1,3) obtain xs where
    xs: "u_skills r = Some (JSON_stringify (JArr xs))" "list_all P xs"
    unfolding skills_inv_def by blast
  have "list_all wf_json xs" using xs(2) assms(2) by (simp add: list_all_iff)
  then have "wf_json (JArr xs)" by simp
  then have "driver_json (u_skills r) = Some (JArr xs)"
    unfolding xs(1) driver_json_def option.case by (rule JSON_parse_stringify)
  then show ?thesis using xs(2) by blast
qed

text \<open>
  C10, as the code has it. The \<open>skills\<close> column of every record holding the
  serialization of an array is an invariant: it holds of the empty table and create,
  update and delete keep it. The elements of those arrays are whatever the requests
  carried (\<open>P\<close> holds of them if it holds of the elements of every request); the server
  checks only that \<open>skills\<close> is an array. The column is a valid document: the driver
  reads every record's back as an array of such elements.
\<close>

theorem skills_invariant:
  assumes "skills_inv P st"
    and "\<forall>xs. b_skills req = Some (JArr xs) \<longrightarrow> list_all P xs"
  shows "skills_inv P empty_store \<and>
         skills_inv P (snd (createUser L salt now req st)) \<and>
         skills_inv P (snd (updateUser L salt now uid req st)) \<and>
         skills_inv P (snd (deleteUser uid st)) \<and>
         ((\<forall>v. P v \<longrightarrow> wf_json v) \<longrightarrow>
            (\<forall>r \<in> set (rows st).
               \<exists>xs. driver_json (u_skills r) = Some (JArr xs) \<and> list_all P xs))"
  using skills_inv_empty createUser_skills_inv [OF assms] updateUser_skills_inv [OF assms]
    deleteUser_skills_inv [OF assms(1)] skills_inv_driver [OF assms(1)]
  by blast

theorem skills_invariant_witness:
  "skills_inv is_string
     (snd (createUser sample_lib ''s'' 200
        \<lparr>b_name = ''Bob'', b_email = ''bob@example.com'', b_password = Some ''Passw0rd!'',
         b_phone = Some ''555 0000'', b_role = ''admin'', b_skills = Some (JArr [JStr ''AWS''])\<rparr>
        \<lparr>rows = [\<lparr>u_id = 1, u_name = ''Alice'', u_email = ''alice@example.com'',
                  u_password = ''h1'', u_phone = Some ''+1-555-1234'', u_role = ''user'',
                  u_skills = Some (JSON_stringify (JArr [JStr ''React''])),
                  u_created_at = 10, u_updated_at = 10\<rparr>],
         next_id = 2\<rparr>)) \<and>
   skills_inv is_string
     (snd (updateUser sample_lib ''s'' 200 1
        \<lparr>b_name = ''Bob'', b_email = ''bob@example.com'', b_password = Some ''Passw0rd!'',
         b_phone = Some ''555 0000'', b_role = ''admin'', b_skills = Some (JArr [JStr ''AWS''])\<rparr>
        \<lparr>rows = [\<lparr>u_id = 1, u_name = ''Alice'', u_email = ''alice@example.com'',
                  u_password = ''h1'', u_phone = Some ''+1-555-1234'', u_role = ''user'',
                  u_skills = Some (JSON_stringify (JArr [JStr ''React''])),
                  u_created_at = 10, u_updated_at = 10\<rparr>],
         next_id = 2\<rparr>)) \<and>
   (\<exists>xs. driver_json (Some (JSON_stringify (JArr [JStr ''React'']))) = Some (JArr xs) \<and>
         list_all is_string xs)"
proof -
  let ?req = "\<lparr>b_name = ''Bob'', b_email = ''bob@example.com'', b_password = Some ''Passw0rd!'',
         b_phone = Some ''555 0000'', b_role = ''admin'', b_skills = Some (JArr [JStr ''AWS''])\<rparr>"
  let ?st = "\<lparr>rows = [\<lparr>u_id = 1, u_name = ''Alice'', u_email = ''alice@example.com'',
                  u_password = ''h1'', u_phone = Some ''+1-555-1234'', u_role = ''user'',
                  u_skills = Some (JSON_stringify (JArr [JStr ''React''])),
                  u_created_at = 10, u_updated_at = 10\<rparr>],
         next_id = 2\<rparr>"
  have i: "skills_inv is_string ?st"
    unfolding skills_inv_def by (auto intro!: exI [of _ "[JStr ''React'']"])
  have r: "\<forall>xs. b_skills ?req = Some (JArr xs) \<longrightarrow> list_all is_string xs" by simp
  have w: "\<forall>v. is_string v \<longrightarrow> wf_json v"
  proof (intro allI impI)
    fix v assume "is_string v"
    then show "wf_json v" by (cases v) simp_all
  qed
  show ?thesis
    using skills_invariant [OF i r, of sample_lib "''s''" 200 1] w
    by (simp del: JSON_stringify.simps)
qed

text \<open>
  A created record whose stored \<open>skills\<close> is an array, but not of strings: the request
  carries \<open>[null]\<close> and \<open>[1, {"a": true}]\<close>.
\<close>

theorem skills_not_strings:
  "fst (createUser sample_lib ''s'' 200
     \<lparr>b_name = ''Bob'', b_email = ''bob@example.com'', b_password = Some ''Passw0rd!'',
      b_phone = Some ''555 0000'', b_role = ''admin'', b_skills = Some (JArr [JNull])\<rparr>
     empty_store) =
   (201, Obj [(''id'', VNum 1), (''name'', VStr ''Bob''), (''email'', VStr ''bob@example.com''),
              (''phone'', VStr ''555 0000''), (''role'', VStr ''admin''),
              (''skills'', VJson (JArr [JNull]))]) \<and>
   map u_skills (rows (snd (createUser sample_lib ''s'' 200
     \<lparr>b_name = ''Bob'', b_email = ''bob@example.com'', b_password = Some ''Passw0rd!'',
      b_phone = Some ''555 0000'', b_role = ''admin'', b_skills = Some (JArr [JNull])\<rparr>
     empty_store))) = [Some ''[null]''] \<and>
   driver_json (Some ''[null]'') = Some (JArr [JNull]) \<and>
   list_all is_string [JNull] = False \<and>
   map u_skills (rows (snd (createUser sample_lib ''s'' 200
     \<lparr>b_name = ''Bob'', b_email = ''bob@example.com'', b_password = Some ''Passw0rd!'',
      b_phone = Some ''555 0000'', b_role = ''admin'',
      b_skills = Some (JArr [JNum ''1'', JObj [(''a'', JBool True)]])\<rparr>
     empty_store))) = [Some (''[1,{'' @ [CHR 0x22] @ ''a'' @ [CHR 0x22] @ '':true}]'')]"
  by code_simp

end
